theory Spec2Isabelle
  imports Main
begin

section \<open>Values of the JavaScript run time\<close>

text \<open>
  \<^verbatim>\<open>App.tsx\<close> keeps every record and the index of record ids as JSON text in a
  key/value contract. TypeScript's types are erased at run time and \<^verbatim>\<open>JSON.parse\<close>
  returns \<^verbatim>\<open>any\<close>, so the model works on JSON values; JavaScript's \<^verbatim>\<open>undefined\<close>
  is \<open>None\<close> of \<open>json option\<close>. Numbers are integers here (the program only writes
  \<^verbatim>\<open>Math.floor(Date.now() / 1000)\<close>): \<open>JNum n\<close> stands for an integer that the engine's
  numbers hold exactly, of magnitude at most \<open>2^53\<close>. An object is the list of its
  properties in insertion order, looked up by name. A string is a list of characters with
  code points below 256.
\<close>

datatype json =
    JNull
  | JBool bool
  | JNum int
  | JStr string
  | JArr "json list"
  | JObj "(string \<times> json) list"

text \<open>A thrown value; the program only ever reads its \<^verbatim>\<open>message\<close>.\<close>

datatype exn = Error (message: string)

text \<open>
  The byte strings held by the contract, up to what \<^verbatim>\<open>App.tsx\<close> can observe of them:
  whether \<^verbatim>\<open>bytes.length\<close> is zero, and what \<^verbatim>\<open>JSON.parse(ethers.toUtf8String(bytes))\<close>
  does: it either throws (\<open>Malformed m\<close>, with \<open>m\<close> the message of the exception) or
  returns a value (\<open>Utf8Json v\<close>). \<^verbatim>\<open>ethers.toUtf8Bytes(JSON.stringify(v))\<close> is
  \<open>Utf8Json v\<close>: the text of a JSON value is never empty and parses back to the value.
\<close>

datatype bytes = Empty | Malformed string | Utf8Json json

fun JSON_parse :: "bytes \<Rightarrow> exn + json" where
  "JSON_parse Empty = Inl (Error ''Unexpected end of JSON input'')"
| "JSON_parse (Malformed m) = Inl (Error m)"
| "JSON_parse (Utf8Json v) = Inr v"

definition JSON_stringify :: "json \<Rightarrow> bytes" where
  "JSON_stringify v = Utf8Json v"

subsection \<open>Coercions and operators\<close>

definition digit :: "nat \<Rightarrow> char" where
  "digit d = ''0123456789'' ! d"

text \<open>
  An integer of magnitude below \<open>10^21\<close> prints in plain decimal, hence so does every
  number of the model.
\<close>

function dec :: "nat \<Rightarrow> string" where
  "dec n = (if n < 10 then [digit n] else dec (n div 10) @ [digit (n mod 10)])"
  by pat_completeness auto
termination
  by (relation "measure id") auto

declare dec.simps [simp del]

fun join :: "string \<Rightarrow> string list \<Rightarrow> string" where
  "join sep [] = []"
| "join sep [s] = s"
| "join sep (s # t # ts) = s @ sep @ join sep (t # ts)"

text \<open>
  \<^verbatim>\<open>ToString\<close>, as the template literal \<^verbatim>\<open>`record_${key}`\<close> applies it, where it returns:
  an array is its elements joined by commas, with \<^verbatim>\<open>null\<close> elements printed as nothing, and
  an object that inherits \<^verbatim>\<open>toString\<close> prints as \<^verbatim>\<open>[object Object]\<close>. The conversion of an
  object with a \<^verbatim>\<open>toString\<close> property of its own throws instead (\<open>ToPrimitive_throws\<close>
  below); the ids that the program writes and the rows it handles are strings, which are
  their own conversion.
\<close>

fun ToString :: "json \<Rightarrow> string" where
  "ToString JNull = ''null''"
| "ToString (JBool b) = (if b then ''true'' else ''false'')"
| "ToString (JNum n) = (if n < 0 then ''-'' @ dec (nat (- n)) else dec (nat n))"
| "ToString (JStr s) = s"
| "ToString (JArr xs) = join '','' (map (\<lambda>x. if x = JNull then [] else ToString x) xs)"
| "ToString (JObj kvs) = ''[object Object]''"

text \<open>The falsy values of \<^verbatim>\<open>||\<close> among JSON values and \<^verbatim>\<open>undefined\<close>.\<close>

fun truthy :: "json option \<Rightarrow> bool" where
  "truthy None = False"
| "truthy (Some JNull) = False"
| "truthy (Some (JBool b)) = b"
| "truthy (Some (JNum n)) = (n \<noteq> 0)"
| "truthy (Some (JStr s)) = (s \<noteq> [])"
| "truthy (Some (JArr xs)) = True"
| "truthy (Some (JObj kvs)) = True"

text \<open>\<^verbatim>\<open>x || d\<close>\<close>

definition or_else :: "json option \<Rightarrow> json \<Rightarrow> json" where
  "or_else x d = (if truthy x then the x else d)"

text \<open>
  Reading a property \<^verbatim>\<open>v.name\<close> of a value that is not \<^verbatim>\<open>null\<close>, for the names the
  program reads (\<^verbatim>\<open>data\<close>, \<^verbatim>\<open>timestamp\<close>, \<^verbatim>\<open>owner\<close>, \<^verbatim>\<open>region\<close>, \<^verbatim>\<open>ageGroup\<close>,
  \<^verbatim>\<open>status\<close>): an object yields its property or \<^verbatim>\<open>undefined\<close>, and numbers, booleans,
  strings and arrays have no property of these names.
\<close>

fun get_prop :: "string \<Rightarrow> json \<Rightarrow> json option" where
  "get_prop name (JObj kvs) = map_of kvs name"
| "get_prop name v = None"

text \<open>
  \<^verbatim>\<open>for (const key of keys)\<close>: an array yields its elements, a string its characters;
  anything else is not iterable.
\<close>

fun for_of :: "json \<Rightarrow> exn + json list" where
  "for_of (JArr xs) = Inr xs"
| "for_of (JStr s) = Inr (map (\<lambda>ch. JStr [ch]) s)"
| "for_of v = Inl (Error ''keys is not iterable'')"

text \<open>\<^verbatim>\<open>keys.push(x)\<close>: only an array has the method.\<close>

fun push :: "json \<Rightarrow> json \<Rightarrow> exn + json" where
  "push (JArr xs) x = Inr (JArr (xs @ [x]))"
| "push v x = Inl (Error ''keys.push is not a function'')"

text \<open>
  The own enumerable properties that \<^verbatim>\<open>{...v}\<close> copies: those of an object, the
  indexed elements of an array or characters of a string, none for the rest.
\<close>

fun spread :: "json \<Rightarrow> (string \<times> json) list" where
  "spread (JObj kvs) = kvs"
| "spread (JArr xs) = map (\<lambda>i. (dec i, xs ! i)) [0..<length xs]"
| "spread (JStr s) = map (\<lambda>i. (dec i, JStr [s ! i])) [0..<length s]"
| "spread v = []"

text \<open>Assigning a property keeps its place if it exists and appends it otherwise.\<close>

fun set_prop :: "string \<Rightarrow> json \<Rightarrow> (string \<times> json) list \<Rightarrow> (string \<times> json) list" where
  "set_prop name v [] = [(name, v)]"
| "set_prop name v (p # ps) = (if fst p = name then (name, v) # ps else p # set_prop name v ps)"

text \<open>\<^verbatim>\<open>s.includes(t)\<close>, \<^verbatim>\<open>s.substring(i, j)\<close> for \<open>i \<le> j\<close>, and \<^verbatim>\<open>s.toLowerCase()\<close>.
  A character of the model is a code point below 256 (Latin-1): the capitals are
  \<open>A\<close> to \<open>Z\<close> and the code points \<open>0xC0\<close> to \<open>0xDE\<close> other than the multiplication sign
  \<open>0xD7\<close>, and each has its small letter 32 places later.\<close>

fun includes_str :: "string \<Rightarrow> string \<Rightarrow> bool" where
  "includes_str [] t = (t = [])"
| "includes_str (ch # s) t = (take (length t) (ch # s) = t \<or> includes_str s t)"

definition substring :: "nat \<Rightarrow> nat \<Rightarrow> string \<Rightarrow> string" where
  "substring i j s = take (j - i) (drop i s)"

definition is_capital :: "char \<Rightarrow> bool" where
  "is_capital ch =
     (65 \<le> (of_char ch :: nat) \<and> (of_char ch :: nat) \<le> 90
      \<or> 192 \<le> (of_char ch :: nat) \<and> (of_char ch :: nat) \<le> 222 \<and> (of_char ch :: nat) \<noteq> 215)"

definition toLowerCase :: "string \<Rightarrow> string" where
  "toLowerCase s = map (\<lambda>ch. if is_capital ch then char_of ((of_char ch :: nat) + 32) else ch) s"

text \<open>
  Converting an object to a primitive value, as a template literal and a subtraction do,
  calls its \<^verbatim>\<open>toString\<close> and \<^verbatim>\<open>valueOf\<close> methods. A parsed JSON object inherits both, unless
  it has a property of its own named \<^verbatim>\<open>toString\<close>: that property is a JSON value, never a
  function, and the conversion throws a \<^verbatim>\<open>TypeError\<close>. An array is converted by joining
  its elements, so its conversion throws when that of an element does.
\<close>

fun ToPrimitive_throws :: "json \<Rightarrow> bool" where
  "ToPrimitive_throws (JObj kvs) = (''toString'' \<in> set (map fst kvs))"
| "ToPrimitive_throws (JArr xs) = list_ex ToPrimitive_throws xs"
| "ToPrimitive_throws v = False"

text \<open>
  \<^verbatim>\<open>ToNumber\<close> for the subtraction in the sort's comparator; \<open>Inr None\<close> is \<^verbatim>\<open>NaN\<close> and \<open>Inl\<close>
  is the \<^verbatim>\<open>TypeError\<close> of a conversion that throws. A string is trimmed, the empty string
  is 0 and a signed run of decimal digits is its value. A numeral in another notation
  (a fraction, an exponent, a radix prefix, \<^verbatim>\<open>Infinity\<close>) denotes no integer of this model
  and is given as \<^verbatim>\<open>NaN\<close> here: the value of \<^verbatim>\<open>ToNumber\<close> on a string or an array is exact
  for the decimal integers only, and the properties below use it on numbers alone; on
  strings and arrays they use only whether the conversion throws.
\<close>

definition is_space :: "char \<Rightarrow> bool" where
  "is_space ch = (ch \<in> set [CHR '' '', CHR 0x09, CHR 0x0A, CHR 0x0B, CHR 0x0C, CHR 0x0D, CHR 0xA0])"

definition is_digit :: "char \<Rightarrow> bool" where
  "is_digit ch = (48 \<le> (of_char ch :: nat) \<and> (of_char ch :: nat) \<le> 57)"

definition trim :: "string \<Rightarrow> string" where
  "trim s = rev (dropWhile is_space (rev (dropWhile is_space s)))"

definition digits_value :: "string \<Rightarrow> int option" where
  "digits_value ds =
     (if ds \<noteq> [] \<and> list_all is_digit ds
      then Some (foldl (\<lambda>acc ch. 10 * acc + (int (of_char ch) - 48)) 0 ds)
      else None)"

definition StringToNumber :: "string \<Rightarrow> int option" where
  "StringToNumber s =
     (case trim s of
        [] \<Rightarrow> Some 0
      | ch # t \<Rightarrow>
          if ch = CHR ''-'' then map_option uminus (digits_value t)
          else if ch = CHR ''+'' then digits_value t
          else digits_value (ch # t))"

definition TypeError_primitive :: exn where
  "TypeError_primitive = Error ''Cannot convert object to primitive value''"

fun ToNumber :: "json option \<Rightarrow> exn + int option" where
  "ToNumber None = Inr None"
| "ToNumber (Some JNull) = Inr (Some 0)"
| "ToNumber (Some (JBool b)) = Inr (Some (if b then 1 else 0))"
| "ToNumber (Some (JNum n)) = Inr (Some n)"
| "ToNumber (Some (JStr s)) = Inr (StringToNumber s)"
| "ToNumber (Some (JArr xs)) =
     (if ToPrimitive_throws (JArr xs) then Inl TypeError_primitive
      else Inr (StringToNumber (ToString (JArr xs))))"
| "ToNumber (Some (JObj kvs)) =
     (if ToPrimitive_throws (JObj kvs) then Inl TypeError_primitive else Inr None)"

text \<open>\<^verbatim>\<open>x - y\<close>: the left operand is converted first, and either conversion may throw.\<close>

definition minus_js :: "json option \<Rightarrow> json option \<Rightarrow> exn + int option" where
  "minus_js x y =
     (case ToNumber x of
        Inl e \<Rightarrow> Inl e
      | Inr a \<Rightarrow>
          (case ToNumber y of
             Inl e \<Rightarrow> Inl e
           | Inr b \<Rightarrow> Inr (case (a, b) of (Some m, Some n) \<Rightarrow> Some (m - n) | _ \<Rightarrow> None)))"

text \<open>
  \<^verbatim>\<open>Array.prototype.sort(cmp)\<close> is a stable sort; a \<^verbatim>\<open>NaN\<close> from the comparator counts as
  0, and what the comparator throws ends the sort. The model inserts each element before
  the first later element it does not have to follow, so it compares every element of a
  list of two or more, as every sort must. When the comparator is consistent (here: when
  every compared timestamp is a number) the result of a stable sort is determined and the
  model computes it, and so it is for a list of at most two elements. For a comparator
  that answers \<^verbatim>\<open>NaN\<close> among three or more elements the language leaves the order to the
  engine: the model then yields one permutation of the list, and the properties below
  rely on its content only, not on its order.
\<close>

fun insert_by :: "('a \<Rightarrow> 'a \<Rightarrow> exn + int option) \<Rightarrow> 'a \<Rightarrow> 'a list \<Rightarrow> exn + 'a list" where
  "insert_by cmp x [] = Inr [x]"
| "insert_by cmp x (y # ys) =
     (case cmp x y of
        Inl e \<Rightarrow> Inl e
      | Inr d \<Rightarrow>
          if (case d of Some n \<Rightarrow> 0 < n | None \<Rightarrow> False)
          then (case insert_by cmp x ys of Inl e \<Rightarrow> Inl e | Inr zs \<Rightarrow> Inr (y # zs))
          else Inr (x # y # ys))"

fun sort_js :: "('a \<Rightarrow> 'a \<Rightarrow> exn + int option) \<Rightarrow> 'a list \<Rightarrow> exn + 'a list" where
  "sort_js cmp [] = Inr []"
| "sort_js cmp (x # xs) =
     (case sort_js cmp xs of Inl e \<Rightarrow> Inl e | Inr ys \<Rightarrow> insert_by cmp x ys)"

section \<open>The contract\<close>

text \<open>
  The calls the front end makes on the contract, in the order it makes them.
\<close>

datatype call = IsAvailable | GetData string | SetData string bytes

text \<open>
  Modelled from the spec: the module \<^verbatim>\<open>./contract\<close> behind \<^verbatim>\<open>getContractReadOnly\<close> and
  \<^verbatim>\<open>getContractWithSigner\<close> is not among the sources. The spec gives the contract as a
  key/value store with \<^verbatim>\<open>getData(key) -> bytes\<close> (empty bytes for an absent key),
  \<^verbatim>\<open>setData(key, value)\<close> and the probe \<^verbatim>\<open>isAvailable() -> bool\<close>. \<open>reader\<close> and
  \<open>signer\<close> say whether the two getters return a contract rather than \<^verbatim>\<open>null\<close>; a call
  on a key may throw (network failure, rejected transaction), which \<open>getData_error\<close> and
  \<open>setData_error\<close> decide; \<open>calls\<close> logs every call issued.
\<close>

record chain =
  reader :: bool
  signer :: bool
  available :: bool
  storage :: "string \<Rightarrow> bytes"
  getData_error :: "string \<Rightarrow> exn option"
  setData_error :: "string \<Rightarrow> exn option"
  calls :: "call list"

text \<open>Modelled from the spec: \<^verbatim>\<open>isAvailable() -> bool\<close>.\<close>

definition isAvailable :: "chain \<Rightarrow> bool \<times> chain" where
  "isAvailable c = (available c, c\<lparr>calls := calls c @ [IsAvailable]\<rparr>)"

text \<open>Modelled from the spec: \<^verbatim>\<open>getData(key: string) -> bytes\<close>.\<close>

definition getData :: "string \<Rightarrow> chain \<Rightarrow> (exn + bytes) \<times> chain" where
  "getData key c =
     (case getData_error c key of
        Some e \<Rightarrow> Inl e
      | None \<Rightarrow> Inr (storage c key),
      c\<lparr>calls := calls c @ [GetData key]\<rparr>)"

text \<open>Modelled from the spec: \<^verbatim>\<open>setData(key: string, value: bytes) -> ()\<close>; a call that
  throws writes nothing.\<close>

definition setData :: "string \<Rightarrow> bytes \<Rightarrow> chain \<Rightarrow> (exn + unit) \<times> chain" where
  "setData key v c =
     (case setData_error c key of
        Some e \<Rightarrow> (Inl e, c\<lparr>calls := calls c @ [SetData key v]\<rparr>)
      | None \<Rightarrow> (Inr (), c\<lparr>storage := (storage c)(key := v), calls := calls c @ [SetData key v]\<rparr>))"

section \<open>The state of the component\<close>

text \<open>
  \<^verbatim>\<open>interface VoterRecord\<close>. The fields hold what \<^verbatim>\<open>loadRecords\<close> reads out of the parsed
  JSON, which is unchecked: a field is \<open>None\<close> when the stored object lacks the property.
\<close>

record VoterRecord =
  id_field :: json
  encryptedData :: "json option"
  timestamp :: "json option"
  owner :: "json option"
  status :: json
  region :: "json option"
  ageGroup :: "json option"

datatype tx_state = TxPending | TxSuccess | TxError

record tx =
  visible :: bool
  tx_status :: tx_state
  tx_message :: string

record form =
  region_input :: string
  ageGroup_input :: string
  sensitiveInfo :: string

text \<open>
  The \<^verbatim>\<open>useState\<close> cells that the four operations read or write; \<open>provider\<close> says
  whether a wallet provider is set. The timers that later hide the status toast and
  reset the form are not part of the model: a state is the one in which the operation's
  promise settles.
\<close>

record app =
  account :: string
  provider :: bool
  loading :: bool
  records :: "VoterRecord list"
  isRefreshing :: bool
  registering :: bool
  transactionStatus :: tx
  newRecordData :: form

text \<open>
  What \<^verbatim>\<open>registerVoter\<close> reads from its host: the outcome of
  \<^verbatim>\<open>btoa(JSON.stringify(newRecordData))\<close> (\<^verbatim>\<open>btoa\<close> throws on a character beyond Latin-1),
  the two readings of \<^verbatim>\<open>Date.now()\<close> in milliseconds and the text of
  \<^verbatim>\<open>Math.random().toString(36)\<close>.
\<close>

record host =
  btoa_JSON :: "form \<Rightarrow> exn + string"
  now_id :: nat
  now_ts :: nat
  random36 :: string

section \<open>\<^verbatim>\<open>loadRecords\<close>\<close>

text \<open>The index load step, shared by \<^verbatim>\<open>loadRecords\<close> and \<^verbatim>\<open>registerVoter\<close>:
  \<^verbatim>\<open>let keys = []; if (keysBytes.length > 0) { try { keys = JSON.parse(...) } catch {} }\<close>\<close>

definition parse_keys :: "bytes \<Rightarrow> json" where
  "parse_keys keysBytes =
     (if keysBytes \<noteq> Empty
      then (case JSON_parse keysBytes of Inl e \<Rightarrow> JArr [] | Inr v \<Rightarrow> v)
      else JArr [])"

text \<open>The object pushed for a parsed record; reading a property of \<^verbatim>\<open>null\<close> throws.\<close>

definition toVoterRecord :: "json \<Rightarrow> json \<Rightarrow> exn + VoterRecord" where
  "toVoterRecord key recordData =
     (if recordData = JNull then Inl (Error ''Cannot read properties of null'')
      else Inr \<lparr>id_field = key,
                encryptedData = get_prop ''data'' recordData,
                timestamp = get_prop ''timestamp'' recordData,
                owner = get_prop ''owner'' recordData,
                status = or_else (get_prop ''status'' recordData) (JStr ''pending''),
                region = get_prop ''region'' recordData,
                ageGroup = get_prop ''ageGroup'' recordData\<rparr>)"

text \<open>
  The body of the loop over the keys, for a key whose conversion to a string returns:
  every failure is caught and logged there.
\<close>

definition fetch_record :: "json \<Rightarrow> chain \<Rightarrow> VoterRecord option \<times> chain" where
  "fetch_record key c =
     (case getData (''record_'' @ ToString key) c of
        (Inl e, c') \<Rightarrow> (None, c')
      | (Inr recordBytes, c') \<Rightarrow>
          if recordBytes \<noteq> Empty
          then (case JSON_parse recordBytes of
                  Inl e \<Rightarrow> (None, c')
                | Inr recordData \<Rightarrow>
                    (case toVoterRecord key recordData of
                       Inl e \<Rightarrow> (None, c')
                     | Inr r \<Rightarrow> (Some r, c')))
          else (None, c'))"

text \<open>
  The loop. The template literal \<^verbatim>\<open>`record_${key}`\<close> is inside the \<^verbatim>\<open>try\<close> of the body: for
  a key whose conversion throws, the error is caught there before any call is made, and
  the loop goes on with the next key.
\<close>

fun fetch_records :: "json list \<Rightarrow> VoterRecord list \<Rightarrow> chain \<Rightarrow> VoterRecord list \<times> chain" where
  "fetch_records [] list c = (list, c)"
| "fetch_records (key # keys) list c =
     (if ToPrimitive_throws key then fetch_records keys list c
      else case fetch_record key c of
        (None, c') \<Rightarrow> fetch_records keys list c'
      | (Some r, c') \<Rightarrow> fetch_records keys (list @ [r]) c')"

text \<open>\<^verbatim>\<open>(a, b) => b.timestamp - a.timestamp\<close>\<close>

definition by_timestamp :: "VoterRecord \<Rightarrow> VoterRecord \<Rightarrow> exn + int option" where
  "by_timestamp a b = minus_js (timestamp b) (timestamp a)"

text \<open>
  \<^verbatim>\<open>loadRecords\<close> catches whatever its body throws and only logs it; the \<^verbatim>\<open>finally\<close>
  block runs on every path. \<^verbatim>\<open>list.sort\<close> is outside the \<^verbatim>\<open>try\<close> of the loop: when the
  comparator throws, \<^verbatim>\<open>setRecords\<close> is not reached and the displayed records stay.
\<close>

definition loadRecords :: "app \<Rightarrow> chain \<Rightarrow> app \<times> chain" where
  "loadRecords app c =
     (let app1 = app\<lparr>isRefreshing := True\<rparr>;
          (app2, c2) =
            (if \<not> reader c then (app1, c)
             else case isAvailable c of
               (ok, c1) \<Rightarrow>
                 if \<not> ok then (app1, c1)
                 else case getData ''record_keys'' c1 of
                   (Inl e, c2) \<Rightarrow> (app1, c2)
                 | (Inr keysBytes, c2) \<Rightarrow>
                     (case for_of (parse_keys keysBytes) of
                        Inl e \<Rightarrow> (app1, c2)
                      | Inr keys \<Rightarrow>
                          (case fetch_records keys [] c2 of
                             (list, c3) \<Rightarrow>
                               (case sort_js by_timestamp list of
                                  Inl e \<Rightarrow> (app1, c3)
                                | Inr ordered \<Rightarrow> (app1\<lparr>records := ordered\<rparr>, c3)))))
      in (app2\<lparr>isRefreshing := False, loading := False\<rparr>, c2))"

section \<open>\<^verbatim>\<open>registerVoter\<close>\<close>

text \<open>\<^verbatim>\<open>setTransactionStatus({ visible: true, status, message })\<close>\<close>

definition setTransactionStatus :: "tx_state \<Rightarrow> string \<Rightarrow> app \<Rightarrow> app" where
  "setTransactionStatus s m app =
     app\<lparr>transactionStatus := \<lparr>visible = True, tx_status = s, tx_message = m\<rparr>\<rparr>"

definition recordId_of :: "host \<Rightarrow> string" where
  "recordId_of h = dec (now_id h) @ ''-'' @ substring 2 9 (random36 h)"

text \<open>The object literal \<^verbatim>\<open>recordData\<close>.\<close>

definition recordData_of :: "host \<Rightarrow> app \<Rightarrow> string \<Rightarrow> json" where
  "recordData_of h app encrypted =
     JObj [(''data'', JStr encrypted),
           (''timestamp'', JNum (int (now_ts h div 1000))),
           (''owner'', JStr (account app)),
           (''region'', JStr (region_input (newRecordData app))),
           (''ageGroup'', JStr (ageGroup_input (newRecordData app))),
           (''status'', JStr ''pending'')]"

text \<open>The \<^verbatim>\<open>try\<close> block: \<open>Inl e\<close> when it throws \<open>e\<close>.\<close>

definition register_try :: "host \<Rightarrow> app \<Rightarrow> chain \<Rightarrow> (exn + app) \<times> chain" where
  "register_try h app c =
     (case btoa_JSON h (newRecordData app) of
        Inl e \<Rightarrow> (Inl e, c)
      | Inr b64 \<Rightarrow>
          if \<not> signer c then (Inl (Error ''Failed to get contract with signer''), c)
          else
            let recordId = recordId_of h;
                recordData = recordData_of h app (''FHE-'' @ b64)
            in case setData (''record_'' @ recordId) (JSON_stringify recordData) c of
                 (Inl e, c1) \<Rightarrow> (Inl e, c1)
               | (Inr u, c1) \<Rightarrow>
                   (case getData ''record_keys'' c1 of
                      (Inl e, c2) \<Rightarrow> (Inl e, c2)
                    | (Inr keysBytes, c2) \<Rightarrow>
                        (case push (parse_keys keysBytes) (JStr recordId) of
                           Inl e \<Rightarrow> (Inl e, c2)
                         | Inr keys \<Rightarrow>
                             (case setData ''record_keys'' (JSON_stringify keys) c2 of
                                (Inl e, c3) \<Rightarrow> (Inl e, c3)
                              | (Inr u, c3) \<Rightarrow>
                                  (case loadRecords
                                          (setTransactionStatus TxSuccess
                                             ''Voter registration submitted securely!'' app)
                                          c3 of
                                     (app', c4) \<Rightarrow> (Inr app', c4))))))"

text \<open>The \<^verbatim>\<open>catch\<close> block.\<close>

definition errorMessage :: "exn \<Rightarrow> string" where
  "errorMessage e =
     (if includes_str (message e) ''user rejected transaction''
      then ''Transaction rejected by user''
      else ''Registration failed: '' @
           (if message e = [] then ''Unknown error'' else message e))"

definition register_catch :: "exn \<Rightarrow> app \<Rightarrow> app" where
  "register_catch e app = setTransactionStatus TxError (errorMessage e) app"

definition registerVoter :: "host \<Rightarrow> app \<Rightarrow> chain \<Rightarrow> app \<times> chain" where
  "registerVoter h app c =
     (if \<not> provider app then (app, c)
      else
        let app1 = setTransactionStatus TxPending ''Encrypting voter data with FHE...''
                     (app\<lparr>registering := True\<rparr>)
        in case register_try h app1 c of
             (Inl e, c') \<Rightarrow> ((register_catch e app1)\<lparr>registering := False\<rparr>, c')
           | (Inr app', c') \<Rightarrow> (app'\<lparr>registering := False\<rparr>, c'))"

section \<open>\<^verbatim>\<open>verifyRecord\<close> and \<^verbatim>\<open>rejectRecord\<close>\<close>

text \<open>
  The two functions have the same text up to the status they write and their two
  messages; \<open>transition_try\<close> is their \<^verbatim>\<open>try\<close> block, \<open>transition_catch\<close> their \<^verbatim>\<open>catch\<close>
  block and \<open>transition\<close> their body, with these strings as arguments. The id they are
  given is that of the row whose button was clicked (\<^verbatim>\<open>recordId: string\<close> in the source),
  and the template literal \<^verbatim>\<open>`record_${recordId}`\<close> converts it with \<open>ToString\<close>; the
  functions are modelled for the ids whose conversion returns, as that of every string
  does.
\<close>

definition transition_try :: "string \<Rightarrow> string \<Rightarrow> app \<Rightarrow> chain \<Rightarrow> json \<Rightarrow> (exn + app) \<times> chain" where
  "transition_try newStatus succeeded app c recordId =
     (if \<not> signer c then (Inl (Error ''Failed to get contract with signer''), c)
      else case getData (''record_'' @ ToString recordId) c of
        (Inl e, c1) \<Rightarrow> (Inl e, c1)
      | (Inr recordBytes, c1) \<Rightarrow>
          if recordBytes = Empty then (Inl (Error ''Record not found''), c1)
          else case JSON_parse recordBytes of
            Inl e \<Rightarrow> (Inl e, c1)
          | Inr recordData \<Rightarrow>
              let updatedRecord = JObj (set_prop ''status'' (JStr newStatus) (spread recordData))
              in case setData (''record_'' @ ToString recordId) (JSON_stringify updatedRecord) c1 of
                   (Inl e, c2) \<Rightarrow> (Inl e, c2)
                 | (Inr u, c2) \<Rightarrow>
                     (case loadRecords (setTransactionStatus TxSuccess succeeded app) c2 of
                        (app', c3) \<Rightarrow> (Inr app', c3)))"

definition transition_catch :: "string \<Rightarrow> exn \<Rightarrow> app \<Rightarrow> app" where
  "transition_catch failed e app =
     setTransactionStatus TxError
       (failed @ (if message e = [] then ''Unknown error'' else message e)) app"

definition transition :: "string \<Rightarrow> string \<Rightarrow> string \<Rightarrow> app \<Rightarrow> chain \<Rightarrow> json \<Rightarrow> app \<times> chain" where
  "transition newStatus succeeded failed app c recordId =
     (if \<not> provider app then (app, c)
      else
        let app1 = setTransactionStatus TxPending ''Processing encrypted data with FHE...'' app
        in case transition_try newStatus succeeded app1 c recordId of
             (Inl e, c') \<Rightarrow> (transition_catch failed e app1, c')
           | (Inr app', c') \<Rightarrow> (app', c'))"

definition verifyRecord :: "app \<Rightarrow> chain \<Rightarrow> json \<Rightarrow> app \<times> chain" where
  "verifyRecord =
     transition ''verified'' ''FHE verification completed successfully!'' ''Verification failed: ''"

definition rejectRecord :: "app \<Rightarrow> chain \<Rightarrow> json \<Rightarrow> app \<times> chain" where
  "rejectRecord =
     transition ''rejected'' ''FHE rejection completed successfully!'' ''Rejection failed: ''"

section \<open>The actions of a row of the record list\<close>

text \<open>\<^verbatim>\<open>isOwner\<close>: \<^verbatim>\<open>account.toLowerCase() === address.toLowerCase()\<close>; the method exists
  on strings only.\<close>

definition isOwner :: "app \<Rightarrow> json option \<Rightarrow> exn + bool" where
  "isOwner app address =
     (case address of
        Some (JStr a) \<Rightarrow> Inr (toLowerCase (account app) = toLowerCase a)
      | _ \<Rightarrow> Inl (Error ''address.toLowerCase is not a function''))"

datatype button = Verify json | Reject json

text \<open>
  The buttons rendered in a row:
  \<^verbatim>\<open>isOwner(record.owner) && record.status === "pending" && (<>Verify, Reject</>)\<close>.
\<close>

definition row_actions :: "app \<Rightarrow> VoterRecord \<Rightarrow> exn + button list" where
  "row_actions app r =
     (case isOwner app (owner r) of
        Inl e \<Rightarrow> Inl e
      | Inr mine \<Rightarrow>
          Inr (if mine \<and> status r = JStr ''pending''
               then [Verify (id_field r), Reject (id_field r)]
               else []))"

fun onClick :: "button \<Rightarrow> app \<Rightarrow> chain \<Rightarrow> app \<times> chain" where
  "onClick (Verify recordId) app c = verifyRecord app c recordId"
| "onClick (Reject recordId) app c = rejectRecord app c recordId"

section \<open>Notions used in the properties\<close>


text \<open>
  The records that the loop of a refresh decodes for the ids of an index, each id fetched
  on its own from the same store.
\<close>

definition decoded_records :: "chain \<Rightarrow> string list \<Rightarrow> VoterRecord list" where
  "decoded_records c ids = List.map_filter (\<lambda>i. fst (fetch_record (JStr i) c)) ids"

text \<open>The conversion of a record's timestamp to a number returns, be it with \<^verbatim>\<open>NaN\<close>.\<close>

definition comparable :: "VoterRecord \<Rightarrow> bool" where
  "comparable r = (\<not> isl (ToNumber (timestamp r)))"


text \<open>The calls issued between a chain state and a later one.\<close>

definition new_calls :: "chain \<Rightarrow> chain \<Rightarrow> call list" where
  "new_calls c c' = drop (length (calls c)) (calls c')"

text \<open>
  The ids that a refresh takes from the stored index, and the property that each of them
  has a record key (its conversion to a string returns) with bytes written under it.
\<close>

definition index_ids :: "(string \<Rightarrow> bytes) \<Rightarrow> json list" where
  "index_ids st =
     (case for_of (parse_keys (st ''record_keys'')) of Inl e \<Rightarrow> [] | Inr keys \<Rightarrow> keys)"


text \<open>
  A record as \<^verbatim>\<open>interface VoterRecord\<close> declares it: the id and the four text fields are
  strings, the timestamp is a number and the status is one of the three status words.
\<close>

fun is_string :: "json option \<Rightarrow> bool" where
  "is_string (Some (JStr s)) = True"
| "is_string v = False"

fun is_number :: "json option \<Rightarrow> bool" where
  "is_number (Some (JNum n)) = True"
| "is_number v = False"

definition valid_record :: "VoterRecord \<Rightarrow> bool" where
  "valid_record r =
     (is_string (Some (id_field r)) \<and> is_string (encryptedData r) \<and> is_number (timestamp r)
      \<and> is_string (owner r) \<and> is_string (region r) \<and> is_string (ageGroup r)
      \<and> status r \<in> set [JStr ''pending'', JStr ''verified'', JStr ''rejected''])"

text \<open>
  The encoding of a record: the object literal that \<^verbatim>\<open>registerVoter\<close> serializes, with
  the fields taken from the record (\<^verbatim>\<open>encryptedData\<close> goes under \<^verbatim>\<open>data\<close>, the id is not
  part of the object). \<^verbatim>\<open>JSON.stringify\<close> leaves out a property that is \<^verbatim>\<open>undefined\<close>.
\<close>

definition encode_record :: "VoterRecord \<Rightarrow> json" where
  "encode_record r =
     JObj (List.map_filter (\<lambda>(name, v). map_option (Pair name) v)
             [(''data'', encryptedData r),
              (''timestamp'', timestamp r),
              (''owner'', owner r),
              (''region'', region r),
              (''ageGroup'', ageGroup r),
              (''status'', Some (status r))])"

text \<open>The record that a registration creates.\<close>

definition new_record :: "host \<Rightarrow> app \<Rightarrow> string \<Rightarrow> VoterRecord" where
  "new_record h app encrypted =
     \<lparr>id_field = JStr (recordId_of h),
      encryptedData = Some (JStr encrypted),
      timestamp = Some (JNum (int (now_ts h div 1000))),
      owner = Some (JStr (account app)),
      status = JStr ''pending'',
      region = Some (JStr (region_input (newRecordData app))),
      ageGroup = Some (JStr (ageGroup_input (newRecordData app)))\<rparr>"

section \<open>Example states\<close>

definition recA :: json where
  "recA = JObj [(''data'', JStr ''FHE-eA==''), (''timestamp'', JNum 100),
                (''owner'', JStr ''0xA11ce''), (''region'', JStr ''North''),
                (''ageGroup'', JStr ''18-30''), (''status'', JStr ''pending'')]"


definition recordA :: VoterRecord where
  "recordA = \<lparr>id_field = JStr ''a'', encryptedData = Some (JStr ''FHE-eA==''),
               timestamp = Some (JNum 100), owner = Some (JStr ''0xA11ce''),
               status = JStr ''pending'', region = Some (JStr ''North''),
               ageGroup = Some (JStr ''18-30'')\<rparr>"


text \<open>An index of two ids, a valid record for the first and corrupt bytes for the second.\<close>

definition store0 :: "string \<Rightarrow> bytes" where
  "store0 = (\<lambda>k. Empty)
     (''record_keys'' := Utf8Json (JArr [JStr ''a'', JStr ''b'']),
      ''record_a'' := Utf8Json recA,
      ''record_b'' := Malformed ''Unexpected token'')"

definition chain0 :: chain where
  "chain0 = \<lparr>reader = True, signer = True, available = True, storage = store0,
             getData_error = (\<lambda>k. None), setData_error = (\<lambda>k. None), calls = []\<rparr>"

text \<open>
  The same index with, for the second id, bytes that parse but hold no record: the JSON
  text \<^verbatim>\<open>5\<close>, read back as a record without fields.
\<close>

definition chain_b5 :: chain where
  "chain_b5 = chain0\<lparr>storage := store0(''record_b'' := Utf8Json (JNum 5))\<rparr>"

definition record_b5 :: VoterRecord where
  "record_b5 = \<lparr>id_field = JStr ''b'', encryptedData = None, timestamp = None, owner = None,
                 status = JStr ''pending'', region = None, ageGroup = None\<rparr>"

text \<open>
  The same index with, for the second id, the JSON text
  \<^verbatim>\<open>{"timestamp":{"toString":1}}\<close>: a timestamp that cannot be converted to a number.
\<close>

definition chain_bT :: chain where
  "chain_bT = chain0\<lparr>storage := store0(''record_b'' :=
                Utf8Json (JObj [(''timestamp'', JObj [(''toString'', JNum 1)])]))\<rparr>"





text \<open>A connected wallet whose account is not the owner of record \<open>a\<close>.\<close>

definition app0 :: app where
  "app0 = \<lparr>account = ''0xB0b'', provider = True, loading = True, records = [],
           isRefreshing = False, registering = False,
           transactionStatus = \<lparr>visible = False, tx_status = TxPending, tx_message = []\<rparr>,
           newRecordData = \<lparr>region_input = ''North'', ageGroup_input = ''18-30'',
                            sensitiveInfo = ''x''\<rparr>\<rparr>"

text \<open>The store is reachable but reports that it is not available.\<close>

definition chain_down :: chain where
  "chain_down = chain0\<lparr>available := False\<rparr>"

definition host0 :: host where
  "host0 = \<lparr>btoa_JSON = (\<lambda>f. Inr ''eyJ4Ijoi''), now_id = 1700123, now_ts = 1700456,
            random36 = ''0.k3j2h1g5xq''\<rparr>"

definition recNew :: json where
  "recNew = JObj [(''data'', JStr ''FHE-eyJ4Ijoi''), (''timestamp'', JNum 1700),
                  (''owner'', JStr ''0xB0b''), (''region'', JStr ''North''),
                  (''ageGroup'', JStr ''18-30''), (''status'', JStr ''pending'')]"

text \<open>The index key holds the JSON text \<^verbatim>\<open>5\<close>; one record is on display.\<close>

definition chain5 :: chain where
  "chain5 = chain0\<lparr>storage := store0(''record_keys'' := Utf8Json (JNum 5))\<rparr>"

definition app1 :: app where
  "app1 = app0\<lparr>records := [recordA]\<rparr>"

text \<open>The record \<open>a\<close> after a verification, after a rejection, and its owner's session.\<close>

definition recA_verified :: json where
  "recA_verified = JObj [(''data'', JStr ''FHE-eA==''), (''timestamp'', JNum 100),
                         (''owner'', JStr ''0xA11ce''), (''region'', JStr ''North''),
                         (''ageGroup'', JStr ''18-30''), (''status'', JStr ''verified'')]"

definition recA_rejected :: json where
  "recA_rejected = JObj [(''data'', JStr ''FHE-eA==''), (''timestamp'', JNum 100),
                         (''owner'', JStr ''0xA11ce''), (''region'', JStr ''North''),
                         (''ageGroup'', JStr ''18-30''), (''status'', JStr ''rejected'')]"

definition app_owner :: app where
  "app_owner = app0\<lparr>account := ''0xA11ce''\<rparr>"

definition recordA_verified :: VoterRecord where
  "recordA_verified = recordA\<lparr>status := JStr ''verified''\<rparr>"

text \<open>The store in which the record \<open>a\<close> is already verified.\<close>

definition chainV :: chain where
  "chainV = chain0\<lparr>storage := store0(''record_a'' := Utf8Json recA_verified)\<rparr>"

text \<open>The index key holds bytes that do not parse; the record \<open>a\<close> is still stored.\<close>

definition chain_corrupt :: chain where
  "chain_corrupt = chain0\<lparr>storage := store0(''record_keys'' := Malformed ''Unexpected token'')\<rparr>"

text \<open>The record that the example registration creates.\<close>

definition recordNew :: VoterRecord where
  "recordNew = \<lparr>id_field = JStr ''1700123-k3j2h1g'', encryptedData = Some (JStr ''FHE-eyJ4Ijoi''),
                 timestamp = Some (JNum 1700), owner = Some (JStr ''0xB0b''),
                 status = JStr ''pending'', region = Some (JStr ''North''),
                 ageGroup = Some (JStr ''18-30'')\<rparr>"


section \<open>The effect of the contract calls\<close>

lemma fetch_record_chain:
  "snd (fetch_record key c) = c\<lparr>calls := calls c @ [GetData (''record_'' @ ToString key)]\<rparr>"
  by (simp add: fetch_record_def getData_def split: option.splits sum.splits)

lemma fetch_record_calls_irrelevant:
  "fst (fetch_record key (c\<lparr>calls := cs\<rparr>)) = fst (fetch_record key c)"
  by (simp add: fetch_record_def getData_def split: option.splits sum.splits)

text \<open>The loop handles each key as if it were fetched alone.\<close>

lemma fetch_records_eq:
  "fetch_records keys list c =
     (list @ List.map_filter
               (\<lambda>k. if ToPrimitive_throws k then None else fst (fetch_record k c)) keys,
      c\<lparr>calls := calls c @ map (\<lambda>k. GetData (''record_'' @ ToString k))
                               (filter (\<lambda>k. \<not> ToPrimitive_throws k) keys)\<rparr>)"
proof (induction keys arbitrary: list c)
  case Nil
  then show ?case by simp
next
  case (Cons key keys)
  show ?case
  proof (cases "ToPrimitive_throws key")
    case True
    then show ?thesis
      by (simp add: Cons.IH)
  next
    case False
    obtain r c' where f: "fetch_record key c = (r, c')"
      by (cases "fetch_record key c")
    have c': "c' = c\<lparr>calls := calls c @ [GetData (''record_'' @ ToString key)]\<rparr>"
      using fetch_record_chain [of key c] f by simp
    have r: "fst (fetch_record key c) = r"
      using f by simp
    have irr: "(\<lambda>k. if ToPrimitive_throws k then None else fst (fetch_record k (c\<lparr>calls := cs\<rparr>)))
             = (\<lambda>k. if ToPrimitive_throws k then None else fst (fetch_record k c))" for cs
      by (simp add: fun_eq_iff fetch_record_calls_irrelevant)
    show ?thesis
      by (cases r) (simp_all add: False f Cons.IH c' r irr)
  qed
qed

lemma fetch_records_strings:
  "fetch_records (map JStr ids) list c =
     (list @ decoded_records c ids,
      c\<lparr>calls := calls c @ map (\<lambda>i. GetData (''record_'' @ i)) ids\<rparr>)"
proof -
  have "List.map_filter (\<lambda>k. if ToPrimitive_throws k then None else fst (fetch_record k c))
          (map JStr ids) = decoded_records c ids"
    by (induction ids) (simp_all add: decoded_records_def split: option.splits)
  moreover have "map (\<lambda>k. GetData (''record_'' @ ToString k))
          (filter (\<lambda>k. \<not> ToPrimitive_throws k) (map JStr ids))
        = map (\<lambda>i. GetData (''record_'' @ i)) ids"
    by (induction ids) simp_all
  ultimately show ?thesis
    by (simp add: fetch_records_eq)
qed

lemma fetch_record_id: "fst (fetch_record k c) = Some r \<Longrightarrow> id_field r = k"
  by (auto simp add: fetch_record_def getData_def toVoterRecord_def
      split: option.splits sum.splits if_splits)

lemma fetch_record_None_iff:
  "fst (fetch_record k c) = None \<longleftrightarrow>
     getData_error c (''record_'' @ ToString k) \<noteq> None
     \<or> storage c (''record_'' @ ToString k) = Empty
     \<or> isl (JSON_parse (storage c (''record_'' @ ToString k)))
     \<or> storage c (''record_'' @ ToString k) = Utf8Json JNull"
  by (cases "storage c (''record_'' @ ToString k)")
     (auto simp add: fetch_record_def getData_def toVoterRecord_def
      split: option.splits sum.splits if_splits)

text \<open>The outcome for a key depends on what the store holds and does for its record key.\<close>

lemma fetch_record_cong:
  assumes "storage c (''record_'' @ ToString k) = storage d (''record_'' @ ToString k)"
    and "getData_error c (''record_'' @ ToString k) = getData_error d (''record_'' @ ToString k)"
  shows "fst (fetch_record k c) = fst (fetch_record k d)"
  using assms by (simp add: fetch_record_def getData_def split: option.splits sum.splits)

lemma set_map_filter: "set (List.map_filter f xs) = {y. \<exists>x\<in>set xs. f x = Some y}"
  by (induction xs) (auto split: option.splits)

lemma set_decoded_records:
  "set (decoded_records c ids) = {r. \<exists>i\<in>set ids. fst (fetch_record (JStr i) c) = Some r}"
  by (simp add: decoded_records_def set_map_filter)

text \<open>A refresh that reaches the sort.\<close>

lemma loadRecords_run:
  assumes "reader c" and "available c" and "getData_error c ''record_keys'' = None"
    and "for_of (parse_keys (storage c ''record_keys'')) = Inr keys"
  shows "loadRecords app c =
     ((case sort_js by_timestamp
              (List.map_filter
                 (\<lambda>k. if ToPrimitive_throws k then None else fst (fetch_record k c)) keys) of
         Inl e \<Rightarrow> app\<lparr>isRefreshing := False, loading := False\<rparr>
       | Inr ordered \<Rightarrow> app\<lparr>isRefreshing := False, loading := False, records := ordered\<rparr>),
      c\<lparr>calls := calls c @ IsAvailable # GetData ''record_keys'' #
                   map (\<lambda>k. GetData (''record_'' @ ToString k))
                     (filter (\<lambda>k. \<not> ToPrimitive_throws k) keys)\<rparr>)"
proof -
  have irr: "(\<lambda>k. if ToPrimitive_throws k then None else fst (fetch_record k (c\<lparr>calls := cs\<rparr>)))
           = (\<lambda>k. if ToPrimitive_throws k then None else fst (fetch_record k c))" for cs
    by (simp add: fun_eq_iff fetch_record_calls_irrelevant)
  show ?thesis
    using assms
    by (simp add: loadRecords_def Let_def isAvailable_def getData_def fetch_records_eq irr
        split: sum.splits)
qed

lemma loadRecords_done:
  assumes "reader c" and "available c" and "getData_error c ''record_keys'' = None"
    and "for_of (parse_keys (storage c ''record_keys'')) = Inr (map JStr ids)"
  shows "loadRecords app c =
     ((case sort_js by_timestamp (decoded_records c ids) of
         Inl e \<Rightarrow> app\<lparr>isRefreshing := False, loading := False\<rparr>
       | Inr ordered \<Rightarrow> app\<lparr>isRefreshing := False, loading := False, records := ordered\<rparr>),
      c\<lparr>calls := calls c @ IsAvailable # GetData ''record_keys'' #
                   map (\<lambda>i. GetData (''record_'' @ i)) ids\<rparr>)"
proof -
  have dec: "decoded_records (c\<lparr>calls := cs\<rparr>) ids = decoded_records c ids" for cs
    by (simp add: decoded_records_def fetch_record_calls_irrelevant)
  show ?thesis
    using assms
    by (simp add: loadRecords_def Let_def isAvailable_def getData_def fetch_records_strings dec
        split: sum.splits)
qed

section \<open>The sort\<close>

lemma insert_by_Inr:
  "insert_by cmp x ys = Inr zs \<Longrightarrow>
   set zs = insert x (set ys) \<and> length zs = Suc (length ys)
   \<and> (\<forall>r. count_list zs r = count_list (x # ys) r)"
proof (induction ys arbitrary: zs)
  case Nil
  then show ?case by auto
next
  case (Cons y ys)
  then show ?case
    by (auto split: sum.splits if_splits)
qed

lemma sort_js_Inr:
  "sort_js cmp xs = Inr zs \<Longrightarrow>
   set zs = set xs \<and> length zs = length xs \<and> (\<forall>r. count_list zs r = count_list xs r)"
proof (induction xs arbitrary: zs)
  case Nil
  then show ?case by simp
next
  case (Cons x xs)
  from Cons.prems obtain ys where ys: "sort_js cmp xs = Inr ys" and zs: "insert_by cmp x ys = Inr zs"
    by (auto split: sum.splits)
  from Cons.IH [OF ys] insert_by_Inr [OF zs] show ?case
    by simp
qed

lemma insert_by_returns:
  "\<forall>y\<in>set ys. \<not> isl (cmp x y) \<Longrightarrow> \<not> isl (insert_by cmp x ys)"
  by (induction ys) (auto split: sum.splits)

lemma sort_js_returns:
  "\<forall>x\<in>set xs. \<forall>y\<in>set xs. \<not> isl (cmp x y) \<Longrightarrow> \<not> isl (sort_js cmp xs)"
proof (induction xs)
  case Nil
  then show ?case by simp
next
  case (Cons x xs)
  have "\<not> isl (sort_js cmp xs)"
    using Cons by simp
  then obtain ys where ys: "sort_js cmp xs = Inr ys"
    by (cases "sort_js cmp xs") auto
  have "set ys = set xs"
    using sort_js_Inr [OF ys] by simp
  then have "\<forall>y\<in>set ys. \<not> isl (cmp x y)"
    using Cons.prems by simp
  then show ?case
    using insert_by_returns [of ys cmp x] by (simp add: ys)
qed

lemma by_timestamp_isl:
  "isl (by_timestamp a b) \<longleftrightarrow> \<not> comparable a \<or> \<not> comparable b"
  by (auto simp add: by_timestamp_def minus_js_def comparable_def split: sum.splits)

lemma sort_js_comparable:
  assumes "\<forall>r\<in>set xs. comparable r"
  shows "\<exists>zs. sort_js by_timestamp xs = Inr zs"
proof -
  have "\<not> isl (sort_js by_timestamp xs)"
    using assms by (intro sort_js_returns) (simp add: by_timestamp_isl)
  then show ?thesis
    by (cases "sort_js by_timestamp xs") auto
qed

text \<open>One record goes through no comparison.\<close>

lemma sort_js_short: "length xs \<le> 1 \<Longrightarrow> sort_js cmp xs = Inr xs"
  by (cases xs) (auto simp add: le_Suc_eq)

text \<open>Among two or more records each one is compared.\<close>

lemma sort_js_throws:
  assumes "2 \<le> length xs" and "\<exists>r\<in>set xs. \<not> comparable r"
  shows "isl (sort_js by_timestamp xs)"
  using assms
proof (induction xs)
  case Nil
  then show ?case by simp
next
  case (Cons x xs)
  show ?case
  proof (cases "sort_js by_timestamp xs")
    case (Inl e)
    then show ?thesis by simp
  next
    case (Inr ys)
    note shape = sort_js_Inr [OF Inr]
    from Cons.prems(1) shape obtain y ys' where ys: "ys = y # ys'"
      by (cases ys) auto
    have "\<not> comparable x \<or> \<not> comparable y"
    proof (cases "comparable x")
      case False
      then show ?thesis by simp
    next
      case True
      with Cons.prems(2) have bad: "\<exists>r\<in>set xs. \<not> comparable r"
        by auto
      have "length xs < 2"
      proof (rule ccontr)
        assume "\<not> length xs < 2"
        then have "isl (sort_js by_timestamp xs)"
          using Cons.IH bad by simp
        with Inr show False by simp
      qed
      with Cons.prems(1) obtain z where "xs = [z]"
        by (cases xs) auto
      with bad Inr ys show ?thesis
        by simp
    qed
    then have "isl (by_timestamp x y)"
      by (simp add: by_timestamp_isl)
    then show ?thesis
      by (cases "by_timestamp x y") (simp_all add: Inr ys)
  qed
qed


lemma is_number_iff: "is_number x \<longleftrightarrow> (\<exists>n. x = Some (JNum n))"
  by (cases x rule: is_number.cases) simp_all




section \<open>Facts about the example states\<close>

lemma chain0_ready:
  "reader chain0" "available chain0" "getData_error chain0 ''record_keys'' = None"
  by (simp_all add: chain0_def)

lemma chain0_keys:
  "for_of (parse_keys (storage chain0 ''record_keys'')) = Inr (map JStr [''a'', ''b''])"
  by (simp add: chain0_def store0_def parse_keys_def)

lemma chain0_fetch_a: "fst (fetch_record (JStr ''a'') chain0) = Some recordA"
  by (simp add: fetch_record_def getData_def chain0_def store0_def recA_def recordA_def
      toVoterRecord_def or_else_def)

lemma chain0_fetch_b: "fst (fetch_record (JStr ''b'') chain0) = None"
  by (simp add: fetch_record_def getData_def chain0_def store0_def)






lemma chain_bT_ready:
  "reader chain_bT" "available chain_bT" "getData_error chain_bT ''record_keys'' = None"
  by (simp_all add: chain_bT_def chain0_def)

lemma chain_bT_keys:
  "for_of (parse_keys (storage chain_bT ''record_keys'')) = Inr (map JStr [''a'', ''b''])"
  by (simp add: chain_bT_def chain0_def store0_def parse_keys_def)

lemma chain_bT_fetch_a: "fst (fetch_record (JStr ''a'') chain_bT) = Some recordA"
  by (simp add: fetch_record_def getData_def chain_bT_def chain0_def store0_def recA_def
      recordA_def toVoterRecord_def or_else_def)

lemma chain_bT_fetch_b:
  "fst (fetch_record (JStr ''b'') chain_bT) =
     Some (record_b5\<lparr>timestamp := Some (JObj [(''toString'', JNum 1)])\<rparr>)"
  by (simp add: fetch_record_def getData_def chain_bT_def chain0_def store0_def record_b5_def
      toVoterRecord_def or_else_def)

lemma chain_b5_ready:
  "reader chain_b5" "available chain_b5" "getData_error chain_b5 ''record_keys'' = None"
  by (simp_all add: chain_b5_def chain0_def)

lemma chain_b5_keys:
  "for_of (parse_keys (storage chain_b5 ''record_keys'')) = Inr (map JStr [''a'', ''b''])"
  by (simp add: chain_b5_def chain0_def store0_def parse_keys_def)

lemma chain_b5_fetch_a: "fst (fetch_record (JStr ''a'') chain_b5) = Some recordA"
  by (simp add: fetch_record_def getData_def chain_b5_def chain0_def store0_def recA_def
      recordA_def toVoterRecord_def or_else_def)

lemma chain_b5_fetch_b: "fst (fetch_record (JStr ''b'') chain_b5) = Some record_b5"
  by (simp add: fetch_record_def getData_def chain_b5_def chain0_def store0_def record_b5_def
      toVoterRecord_def or_else_def)





lemma recordA_valid: "valid_record recordA"
  by (simp add: valid_record_def recordA_def)

lemma singleton_list: "set xs = {a} \<Longrightarrow> length xs = Suc 0 \<Longrightarrow> xs = [a]"
  by (cases xs) auto

section \<open>Refresh\<close>

text \<open>
  C4, as stated, on the index \<^verbatim>\<open>["a","b"]\<close> with a valid record for \<^verbatim>\<open>a\<close> (timestamp 100).
  When the bytes of \<^verbatim>\<open>b\<close> are the JSON text \<^verbatim>\<open>{"timestamp":{"toString":1}}\<close>, the loop
  fetches and decodes both ids, the comparator of the sort then throws on the timestamp
  of \<^verbatim>\<open>b\<close>, outside the \<^verbatim>\<open>try\<close> of the loop, and the refresh ends in its outer \<^verbatim>\<open>catch\<close>
  without installing anything: one id aborts the whole refresh and the valid record of
  \<^verbatim>\<open>a\<close> does not appear. When the bytes of \<^verbatim>\<open>b\<close> are the JSON text \<^verbatim>\<open>5\<close>, which is no
  record, \<^verbatim>\<open>b\<close> is not skipped: it is installed as a record without fields.
\<close>

theorem refresh_aborted_by_one_id_counterexample:
  "for_of (parse_keys (storage chain_bT ''record_keys'')) = Inr [JStr ''a'', JStr ''b'']
   \<and> storage chain_bT ''record_a'' = Utf8Json recA
   \<and> fst (fetch_record (JStr ''a'') chain_bT) = Some recordA
   \<and> valid_record recordA
   \<and> storage chain_bT ''record_b'' = Utf8Json (JObj [(''timestamp'', JObj [(''toString'', JNum 1)])])
   \<and> records app0 = []
   \<and> records (fst (loadRecords app0 chain_bT)) = []
   \<and> recordA \<notin> set (records (fst (loadRecords app0 chain_bT)))
   \<and> calls (snd (loadRecords app0 chain_bT)) =
       [IsAvailable, GetData ''record_keys'', GetData ''record_a'', GetData ''record_b'']
   \<and> storage chain_b5 ''record_b'' = Utf8Json (JNum 5)
   \<and> records (fst (loadRecords app0 chain_b5)) = [recordA, record_b5]
   \<and> encryptedData record_b5 = None \<and> timestamp record_b5 = None \<and> owner record_b5 = None"
proof -
  have dT: "decoded_records chain_bT [''a'', ''b''] =
              [recordA, record_b5\<lparr>timestamp := Some (JObj [(''toString'', JNum 1)])\<rparr>]"
    by (simp add: decoded_records_def chain_bT_fetch_a chain_bT_fetch_b)
  have sT: "isl (sort_js by_timestamp
                   [recordA, record_b5\<lparr>timestamp := Some (JObj [(''toString'', JNum 1)])\<rparr>])"
    by (simp add: by_timestamp_def minus_js_def recordA_def record_b5_def)
  from sT obtain e where eT: "sort_js by_timestamp
        [recordA, record_b5\<lparr>timestamp := Some (JObj [(''toString'', JNum 1)])\<rparr>] = Inl e"
    by (cases "sort_js by_timestamp
        [recordA, record_b5\<lparr>timestamp := Some (JObj [(''toString'', JNum 1)])\<rparr>]") auto
  have rT: "records (fst (loadRecords app0 chain_bT)) = []"
    by (simp add: loadRecords_done [OF chain_bT_ready chain_bT_keys] dT eT app0_def
        del: sort_js.simps)
  have cT: "calls (snd (loadRecords app0 chain_bT)) =
       [IsAvailable, GetData ''record_keys'', GetData ''record_a'', GetData ''record_b'']"
  proof -
    have "calls chain_bT = []"
      by (simp add: chain_bT_def chain0_def)
    then show ?thesis
      by (simp add: loadRecords_done [OF chain_bT_ready chain_bT_keys])
  qed
  have d5: "decoded_records chain_b5 [''a'', ''b''] = [recordA, record_b5]"
    by (simp add: decoded_records_def chain_b5_fetch_a chain_b5_fetch_b)
  have s5: "sort_js by_timestamp [recordA, record_b5] = Inr [recordA, record_b5]"
    by (simp add: by_timestamp_def minus_js_def recordA_def record_b5_def)
  have r5: "records (fst (loadRecords app0 chain_b5)) = [recordA, record_b5]"
    by (simp add: loadRecords_done [OF chain_b5_ready chain_b5_keys] d5 s5 del: sort_js.simps)
  have stores: "storage chain_bT ''record_a'' = Utf8Json recA"
    "storage chain_bT ''record_b'' = Utf8Json (JObj [(''timestamp'', JObj [(''toString'', JNum 1)])])"
    "storage chain_b5 ''record_b'' = Utf8Json (JNum 5)"
    by (simp_all add: chain_bT_def chain_b5_def chain0_def store0_def)
  have rest: "records app0 = []"
    "encryptedData record_b5 = None" "timestamp record_b5 = None" "owner record_b5 = None"
    by (simp_all add: app0_def record_b5_def)
  have keys: "for_of (parse_keys (storage chain_bT ''record_keys'')) = Inr [JStr ''a'', JStr ''b'']"
    using chain_bT_keys by simp
  have absent: "recordA \<notin> set (records (fst (loadRecords app0 chain_bT)))"
    unfolding rT by simp
  from keys stores(1) chain_bT_fetch_a recordA_valid stores(2) rest(1) rT absent cT stores(3) r5
    rest(2-4)
  show ?thesis
    by (intro conjI)
qed

text \<open>
  C4, amended. For an index that is a list of strings, a refresh fetches every id, also
  after an id that fails. An id is skipped exactly when its \<^verbatim>\<open>getData\<close> throws, its bytes
  are empty, \<^verbatim>\<open>JSON.parse\<close> rejects them or they are the text \<^verbatim>\<open>null\<close>; every other id is
  decoded to a record with the fields read from the parsed value, whatever that value is.
  The outcome for an id does not depend on the other ids. If at most one record was
  decoded, or no decoded timestamp is a value whose conversion to a number throws, the
  refresh installs exactly the decoded records: each as many times as it was decoded. If
  two or more records were decoded and the conversion of one of their timestamps throws,
  the refresh installs nothing and keeps the records it had.
\<close>

theorem refresh_skips_unreadable_ids:
  assumes "reader c" and "available c" and "getData_error c ''record_keys'' = None"
    and "for_of (parse_keys (storage c ''record_keys'')) = Inr (map JStr ids)"
  shows "new_calls c (snd (loadRecords app c)) =
           IsAvailable # GetData ''record_keys'' # map (\<lambda>i. GetData (''record_'' @ i)) ids
       \<and> (\<forall>i. fst (fetch_record (JStr i) c) = None \<longleftrightarrow>
                 getData_error c (''record_'' @ i) \<noteq> None
                 \<or> storage c (''record_'' @ i) = Empty
                 \<or> isl (JSON_parse (storage c (''record_'' @ i)))
                 \<or> storage c (''record_'' @ i) = Utf8Json JNull)
       \<and> (\<forall>i v. getData_error c (''record_'' @ i) = None
                 \<and> storage c (''record_'' @ i) = Utf8Json v \<and> v \<noteq> JNull
               \<longrightarrow> (\<exists>r. toVoterRecord (JStr i) v = Inr r
                        \<and> fst (fetch_record (JStr i) c) = Some r))
       \<and> (length (decoded_records c ids) \<le> 1 \<or> (\<forall>r\<in>set (decoded_records c ids). comparable r)
            \<longrightarrow> (\<forall>r. count_list (records (fst (loadRecords app c))) r
                       = count_list (decoded_records c ids) r)
                \<and> set (records (fst (loadRecords app c))) = set (decoded_records c ids)
                \<and> length (records (fst (loadRecords app c))) = length (decoded_records c ids))
       \<and> (2 \<le> length (decoded_records c ids) \<and> (\<exists>r\<in>set (decoded_records c ids). \<not> comparable r)
            \<longrightarrow> records (fst (loadRecords app c)) = records app)"
proof -
  note run = loadRecords_done [OF assms, of app]
  have fetched: "new_calls c (snd (loadRecords app c)) =
           IsAvailable # GetData ''record_keys'' # map (\<lambda>i. GetData (''record_'' @ i)) ids"
    by (simp add: run new_calls_def)
  have skipped: "fst (fetch_record (JStr i) c) = None \<longleftrightarrow>
                 getData_error c (''record_'' @ i) \<noteq> None
                 \<or> storage c (''record_'' @ i) = Empty
                 \<or> isl (JSON_parse (storage c (''record_'' @ i)))
                 \<or> storage c (''record_'' @ i) = Utf8Json JNull" for i
    using fetch_record_None_iff [of "JStr i" c] by simp
  have decoded: "\<exists>r. toVoterRecord (JStr i) v = Inr r \<and> fst (fetch_record (JStr i) c) = Some r"
    if "getData_error c (''record_'' @ i) = None" and "storage c (''record_'' @ i) = Utf8Json v"
      and "v \<noteq> JNull" for i v
    using that by (simp add: fetch_record_def getData_def toVoterRecord_def)
  have installed:
    "(\<forall>r. count_list (records (fst (loadRecords app c))) r = count_list (decoded_records c ids) r)
     \<and> set (records (fst (loadRecords app c))) = set (decoded_records c ids)
     \<and> length (records (fst (loadRecords app c))) = length (decoded_records c ids)"
    if "length (decoded_records c ids) \<le> 1 \<or> (\<forall>r\<in>set (decoded_records c ids). comparable r)"
  proof -
    from that obtain zs where zs: "sort_js by_timestamp (decoded_records c ids) = Inr zs"
      using sort_js_short [of "decoded_records c ids" by_timestamp]
        sort_js_comparable [of "decoded_records c ids"] by blast
    have "records (fst (loadRecords app c)) = zs"
      by (simp add: run zs)
    with sort_js_Inr [OF zs] show ?thesis
      by simp
  qed
  have kept: "records (fst (loadRecords app c)) = records app"
    if "2 \<le> length (decoded_records c ids)" and "\<exists>r\<in>set (decoded_records c ids). \<not> comparable r"
  proof -
    from sort_js_throws [OF that] obtain e
      where "sort_js by_timestamp (decoded_records c ids) = Inl e"
      by (cases "sort_js by_timestamp (decoded_records c ids)") auto
    then show ?thesis
      by (simp add: run)
  qed
  from fetched skipped decoded installed kept show ?thesis
    by blast
qed

text \<open>
  The scenario of the index \<^verbatim>\<open>["a","b"]\<close> with a valid record for \<^verbatim>\<open>a\<close> (timestamp 100)
  and corrupt bytes for \<^verbatim>\<open>b\<close>: the refresh fetches both and yields the one record of \<^verbatim>\<open>a\<close>.
\<close>

theorem refresh_skips_unreadable_ids_witness:
  "reader chain0 \<and> available chain0 \<and> getData_error chain0 ''record_keys'' = None
   \<and> for_of (parse_keys (storage chain0 ''record_keys'')) = Inr (map JStr [''a'', ''b''])
   \<and> storage chain0 ''record_b'' = Malformed ''Unexpected token''
   \<and> new_calls chain0 (snd (loadRecords app0 chain0)) =
       [IsAvailable, GetData ''record_keys'', GetData ''record_a'', GetData ''record_b'']
   \<and> getData_error chain0 (''record_'' @ ''a'') = None
   \<and> storage chain0 (''record_'' @ ''a'') = Utf8Json recA \<and> recA \<noteq> JNull
   \<and> fst (fetch_record (JStr ''a'') chain0) = Some recordA
   \<and> fst (fetch_record (JStr ''b'') chain0) = None
   \<and> length (decoded_records chain0 [''a'', ''b'']) \<le> 1
   \<and> records (fst (loadRecords app0 chain0)) = [recordA]
   \<and> length (records (fst (loadRecords app0 chain0))) = 1
   \<and> reader chain_bT \<and> available chain_bT \<and> getData_error chain_bT ''record_keys'' = None
   \<and> for_of (parse_keys (storage chain_bT ''record_keys'')) = Inr (map JStr [''a'', ''b''])
   \<and> 2 \<le> length (decoded_records chain_bT [''a'', ''b''])
   \<and> record_b5\<lparr>timestamp := Some (JObj [(''toString'', JNum 1)])\<rparr>
        \<in> set (decoded_records chain_bT [''a'', ''b''])
   \<and> \<not> comparable (record_b5\<lparr>timestamp := Some (JObj [(''toString'', JNum 1)])\<rparr>)
   \<and> records (fst (loadRecords app0 chain_bT)) = records app0"
proof -
  have d: "decoded_records chain0 [''a'', ''b''] = [recordA]"
    by (simp add: decoded_records_def chain0_fetch_a chain0_fetch_b)
  have short: "length (decoded_records chain0 [''a'', ''b'']) \<le> 1"
    by (simp add: d)
  have a: "getData_error chain0 (''record_'' @ ''a'') = None"
    "storage chain0 (''record_'' @ ''a'') = Utf8Json recA" "recA \<noteq> JNull"
    by (simp_all add: chain0_def store0_def recA_def)
  have dT: "decoded_records chain_bT [''a'', ''b''] =
              [recordA, record_b5\<lparr>timestamp := Some (JObj [(''toString'', JNum 1)])\<rparr>]"
    by (simp add: decoded_records_def chain_bT_fetch_a chain_bT_fetch_b)
  have two: "2 \<le> length (decoded_records chain_bT [''a'', ''b''])"
    and mem: "record_b5\<lparr>timestamp := Some (JObj [(''toString'', JNum 1)])\<rparr>
                \<in> set (decoded_records chain_bT [''a'', ''b''])"
    by (simp_all add: dT)
  have bad: "\<not> comparable (record_b5\<lparr>timestamp := Some (JObj [(''toString'', JNum 1)])\<rparr>)"
    by (simp add: comparable_def)
  note u = refresh_skips_unreadable_ids [OF chain_bT_ready chain_bT_keys, of app0]
  have kept: "records (fst (loadRecords app0 chain_bT)) = records app0"
    using u [THEN conjunct2, THEN conjunct2, THEN conjunct2, THEN conjunct2] two mem bad
    by blast
  note t = refresh_skips_unreadable_ids [OF chain0_ready chain0_keys, of app0]
  have "set (records (fst (loadRecords app0 chain0))) = {recordA}"
    and "length (records (fst (loadRecords app0 chain0))) = Suc 0"
    using t [THEN conjunct2, THEN conjunct2, THEN conjunct2, THEN conjunct1] by (simp_all add: d)
  then have recs: "records (fst (loadRecords app0 chain0)) = [recordA]"
    by (rule singleton_list)
  have cs: "new_calls chain0 (snd (loadRecords app0 chain0)) =
       [IsAvailable, GetData ''record_keys'', GetData ''record_a'', GetData ''record_b'']"
    using t [THEN conjunct1] by simp
  have b: "storage chain0 ''record_b'' = Malformed ''Unexpected token''"
    by (simp add: chain0_def store0_def)
  have len: "length (records (fst (loadRecords app0 chain0))) = 1"
    unfolding recs by simp
  have fa: "fst (fetch_record (JStr ''a'') chain0) = Some recordA"
  proof -
    from t [THEN conjunct2, THEN conjunct2, THEN conjunct1] a
    obtain r where "toVoterRecord (JStr ''a'') recA = Inr r"
      and "fst (fetch_record (JStr ''a'') chain0) = Some r"
      by blast
    then show ?thesis
      by (simp add: toVoterRecord_def recA_def recordA_def or_else_def)
  qed
  have fb: "fst (fetch_record (JStr ''b'') chain0) = None"
    using t [THEN conjunct2, THEN conjunct1] b by simp
  from chain0_ready chain0_keys b cs a fa fb short recs len chain_bT_ready chain_bT_keys two mem
    bad kept
  show ?thesis
    by (intro conjI)
qed





text \<open>
  C8, as stated, at an index key holding the JSON text \<^verbatim>\<open>5\<close>, which is not a list of
  ids: the load step yields the number 5, not an empty sequence, the loop over it throws,
  and the refresh ends in its own \<^verbatim>\<open>catch\<close> with the displayed record still in place
  rather than with zero records.
\<close>

theorem index_not_a_list_counterexample:
  "storage chain5 ''record_keys'' = Utf8Json (JNum 5)
   \<and> parse_keys (storage chain5 ''record_keys'') = JNum 5
   \<and> parse_keys (storage chain5 ''record_keys'') \<noteq> JArr []
   \<and> for_of (parse_keys (storage chain5 ''record_keys'')) = Inl (Error ''keys is not iterable'')
   \<and> records app1 = [recordA]
   \<and> records (fst (loadRecords app1 chain5)) = [recordA]
   \<and> calls (snd (loadRecords app1 chain5)) = [IsAvailable, GetData ''record_keys'']"
  by (simp add: chain5_def chain0_def store0_def app1_def app0_def parse_keys_def
      loadRecords_def isAvailable_def getData_def Let_def)

text \<open>
  C8, amended. For index bytes that are empty or that \<^verbatim>\<open>JSON.parse\<close> rejects, the load
  step yields the empty list and raises nothing, and a refresh that reads such an index
  installs the empty record list after the two calls \<^verbatim>\<open>isAvailable\<close> and \<^verbatim>\<open>getData\<close>.
  Bytes that parse are taken as parsed, whatever their shape.
\<close>

theorem empty_or_unparsable_index:
  assumes "b = Empty \<or> isl (JSON_parse b)"
  shows "parse_keys b = JArr []
       \<and> (reader c \<and> available c \<and> getData_error c ''record_keys'' = None
            \<and> storage c ''record_keys'' = b
          \<longrightarrow> loadRecords app c =
                (app\<lparr>isRefreshing := False, loading := False, records := []\<rparr>,
                 c\<lparr>calls := calls c @ [IsAvailable, GetData ''record_keys'']\<rparr>))
       \<and> (\<forall>v. parse_keys (Utf8Json v) = v)"
proof -
  have keys: "parse_keys b = JArr []"
    using assms by (cases b) (simp_all add: parse_keys_def)
  have "loadRecords app c =
          (app\<lparr>isRefreshing := False, loading := False, records := []\<rparr>,
           c\<lparr>calls := calls c @ [IsAvailable, GetData ''record_keys'']\<rparr>)"
    if "reader c" and "available c" and "getData_error c ''record_keys'' = None"
      and "storage c ''record_keys'' = b"
  proof -
    have "for_of (parse_keys (storage c ''record_keys'')) = Inr []"
      using that(4) keys by simp
    from loadRecords_run [OF that(1-3) this] show ?thesis
      by simp
  qed
  then show ?thesis
    using keys by (simp add: parse_keys_def)
qed

theorem empty_or_unparsable_index_witness:
  "(Malformed ''Unexpected token'' = Empty \<or> isl (JSON_parse (Malformed ''Unexpected token'')))
   \<and> parse_keys (Malformed ''Unexpected token'') = JArr []
   \<and> reader (chain0\<lparr>storage := store0(''record_keys'' := Malformed ''Unexpected token'')\<rparr>)
   \<and> available (chain0\<lparr>storage := store0(''record_keys'' := Malformed ''Unexpected token'')\<rparr>)
   \<and> records (fst (loadRecords app1
        (chain0\<lparr>storage := store0(''record_keys'' := Malformed ''Unexpected token'')\<rparr>))) = []
   \<and> parse_keys Empty = JArr []"
proof -
  have h: "Malformed ''Unexpected token'' = Empty \<or> isl (JSON_parse (Malformed ''Unexpected token''))"
    by simp
  have e: "Empty = Empty \<or> isl (JSON_parse Empty)"
    by simp
  show ?thesis
    using empty_or_unparsable_index [OF h,
        of "chain0\<lparr>storage := store0(''record_keys'' := Malformed ''Unexpected token'')\<rparr>" app1]
      empty_or_unparsable_index [OF e, of chain0 app1]
    by (simp add: chain0_def)
qed



section \<open>Steps of the operations\<close>

lemma setData_Inr:
  "setData_error c k = None \<Longrightarrow>
   setData k v c = (Inr (), c\<lparr>storage := (storage c)(k := v), calls := calls c @ [SetData k v]\<rparr>)"
  by (simp add: setData_def)

lemma setData_Inl:
  "setData_error c k = Some e \<Longrightarrow> setData k v c = (Inl e, c\<lparr>calls := calls c @ [SetData k v]\<rparr>)"
  by (simp add: setData_def)

lemma getData_Inr:
  "getData_error c k = None \<Longrightarrow>
   getData k c = (Inr (storage c k), c\<lparr>calls := calls c @ [GetData k]\<rparr>)"
  by (simp add: getData_def)

lemma getData_Inl:
  "getData_error c k = Some e \<Longrightarrow> getData k c = (Inl e, c\<lparr>calls := calls c @ [GetData k]\<rparr>)"
  by (simp add: getData_def)

lemma setTransactionStatus_fields:
  "account (setTransactionStatus s m a) = account a"
  "provider (setTransactionStatus s m a) = provider a"
  "records (setTransactionStatus s m a) = records a"
  "newRecordData (setTransactionStatus s m a) = newRecordData a"
  "tx_status (transactionStatus (setTransactionStatus s m a)) = s"
  by (simp_all add: setTransactionStatus_def)

lemma loadRecords_unavailable:
  assumes "\<not> available c"
  shows "loadRecords app c =
           (app\<lparr>isRefreshing := False, loading := False\<rparr>,
            c\<lparr>calls := calls c @ (if reader c then [IsAvailable] else [])\<rparr>)"
  using assms by (simp add: loadRecords_def Let_def isAvailable_def)

lemma loadRecords_chain:
  "\<exists>cs. snd (loadRecords app c) = c\<lparr>calls := calls c @ cs\<rparr>
        \<and> (\<forall>k v. SetData k v \<notin> set cs)
        \<and> (\<not> available c \<longrightarrow> cs = (if reader c then [IsAvailable] else []))"
proof (cases "available c")
  case False
  then show ?thesis
    by (simp add: loadRecords_unavailable)
next
  case avail: True
  show ?thesis
  proof (cases "reader c \<and> getData_error c ''record_keys'' = None
                \<and> \<not> isl (for_of (parse_keys (storage c ''record_keys'')))")
    case True
    then obtain keys where "for_of (parse_keys (storage c ''record_keys'')) = Inr keys"
      by (cases "for_of (parse_keys (storage c ''record_keys''))") auto
    with True avail show ?thesis
      by (auto simp add: loadRecords_run split: sum.splits)
  next
    case False
    with avail show ?thesis
      by (auto simp add: loadRecords_def Let_def isAvailable_def getData_def
          split: sum.splits option.splits intro: exI [of _ "[]"])
  qed
qed

lemma loadRecords_fst:
  "transactionStatus (fst (loadRecords app c)) = transactionStatus app"
  "account (fst (loadRecords app c)) = account app"
  "provider (fst (loadRecords app c)) = provider app"
  "registering (fst (loadRecords app c)) = registering app"
  "newRecordData (fst (loadRecords app c)) = newRecordData app"
  by (simp_all add: loadRecords_def Let_def isAvailable_def getData_def case_prod_beta
      split: sum.splits option.splits)

lemma recordData_of_cong:
  "recordData_of h (setTransactionStatus s m (app\<lparr>registering := b\<rparr>)) e = recordData_of h app e"
  by (simp add: recordData_of_def setTransactionStatus_def)

text \<open>The record key of a new id is never the index key: an id starts with a digit.\<close>

lemma dec_hd: "\<exists>d ds. dec n = digit d # ds \<and> d < 10"
proof (induction n rule: dec.induct)
  case (1 n)
  show ?case
  proof (cases "n < 10")
    case True
    then have "dec n = digit n # []"
      by (subst dec.simps) simp
    with True show ?thesis
      by blast
  next
    case False
    with 1 obtain d ds where "dec (n div 10) = digit d # ds" and "d < 10"
      by blast
    with False have "dec n = digit d # (ds @ [digit (n mod 10)])"
      by (subst dec.simps) simp
    with \<open>d < 10\<close> show ?thesis
      by blast
  qed
qed

lemma digit_not_k: "d < 10 \<Longrightarrow> digit d \<noteq> CHR ''k''"
proof -
  assume "d < 10"
  then have "digit d \<in> set ''0123456789''"
    unfolding digit_def by (intro nth_mem) simp
  then show ?thesis
    by auto
qed

lemma record_key_not_index: "''record_'' @ recordId_of h \<noteq> ''record_keys''"
proof -
  obtain d ds where "dec (now_id h) = digit d # ds" and "d < 10"
    using dec_hd by blast
  then show ?thesis
    using digit_not_k [of d] by (simp add: recordId_of_def)
qed

text \<open>The ways a registration can end.\<close>

lemma register_outcomes:
  fixes h app c
  defines "rk \<equiv> ''record_'' @ recordId_of h"
    and "c' \<equiv> snd (registerVoter h app c)"
    and "s \<equiv> tx_status (transactionStatus (fst (registerVoter h app c)))"
  shows "(registerVoter h app c = (app, c) \<and> \<not> provider app)
    \<or> (provider app \<and> s = TxError \<and> c' = c)
    \<or> (\<exists>v. provider app \<and> s = TxError \<and> c' = c\<lparr>calls := calls c @ [SetData rk v]\<rparr>)
    \<or> (\<exists>b64. provider app \<and> s = TxError \<and> btoa_JSON h (newRecordData app) = Inr b64
          \<and> c' = c\<lparr>storage := (storage c)(rk := JSON_stringify (recordData_of h app (''FHE-'' @ b64))),
                    calls := calls c @ [SetData rk (JSON_stringify (recordData_of h app (''FHE-'' @ b64))),
                                        GetData ''record_keys'']\<rparr>)
    \<or> (\<exists>b64 keys. provider app \<and> s = TxError \<and> btoa_JSON h (newRecordData app) = Inr b64
          \<and> push (parse_keys (storage c ''record_keys'')) (JStr (recordId_of h)) = Inr keys
          \<and> c' = c\<lparr>storage := (storage c)(rk := JSON_stringify (recordData_of h app (''FHE-'' @ b64))),
                    calls := calls c @ [SetData rk (JSON_stringify (recordData_of h app (''FHE-'' @ b64))),
                                        GetData ''record_keys'',
                                        SetData ''record_keys'' (JSON_stringify keys)]\<rparr>)
    \<or> (\<exists>b64 keys cs. provider app \<and> s = TxSuccess \<and> btoa_JSON h (newRecordData app) = Inr b64
          \<and> push (parse_keys (storage c ''record_keys'')) (JStr (recordId_of h)) = Inr keys
          \<and> (\<forall>k v. SetData k v \<notin> set cs)
          \<and> (\<not> available c \<longrightarrow> cs = (if reader c then [IsAvailable] else []))
          \<and> c' = c\<lparr>storage := (storage c)(rk := JSON_stringify (recordData_of h app (''FHE-'' @ b64)),
                                             ''record_keys'' := JSON_stringify keys),
                    calls := calls c @ [SetData rk (JSON_stringify (recordData_of h app (''FHE-'' @ b64))),
                                        GetData ''record_keys'',
                                        SetData ''record_keys'' (JSON_stringify keys)] @ cs\<rparr>)"
proof (cases "provider app")
  case False
  then show ?thesis
    by (simp add: registerVoter_def)
next
  case True
  define app1 where
    "app1 = setTransactionStatus TxPending ''Encrypting voter data with FHE...''
              (app\<lparr>registering := True\<rparr>)"
  have rv: "registerVoter h app c =
      (case register_try h app1 c of
         (Inl e, d) \<Rightarrow> ((register_catch e app1)\<lparr>registering := False\<rparr>, d)
       | (Inr a, d) \<Rightarrow> (a\<lparr>registering := False\<rparr>, d))"
    using True unfolding registerVoter_def app1_def Let_def by simp
  have failed: "s = TxError \<and> c' = d" if "register_try h app1 c = (Inl e, d)" for e d
    using that by (simp add: s_def c'_def rv register_catch_def setTransactionStatus_def)
  have form: "newRecordData app1 = newRecordData app"
    by (simp add: app1_def setTransactionStatus_def)
  have data: "recordData_of h app1 x = recordData_of h app x" for x
    by (simp add: app1_def recordData_of_cong)
  show ?thesis
  proof (cases "btoa_JSON h (newRecordData app)")
    case (Inl e)
    then have "register_try h app1 c = (Inl e, c)"
      by (simp add: register_try_def form)
    from failed [OF this] True show ?thesis
      by simp
  next
    case (Inr b64)
    define v where "v = JSON_stringify (recordData_of h app (''FHE-'' @ b64))"
    define c1 where "c1 = c\<lparr>storage := (storage c)(rk := v), calls := calls c @ [SetData rk v]\<rparr>"
    define c2 where "c2 = c1\<lparr>calls := calls c1 @ [GetData ''record_keys'']\<rparr>"
    show ?thesis
    proof (cases "signer c")
      case False
      then have "register_try h app1 c = (Inl (Error ''Failed to get contract with signer''), c)"
        by (simp add: register_try_def form Inr)
      from failed [OF this] True show ?thesis
        by simp
    next
      case signer: True
      show ?thesis
      proof (cases "setData_error c rk")
        case (Some e)
        then have "register_try h app1 c = (Inl e, c\<lparr>calls := calls c @ [SetData rk v]\<rparr>)"
          by (simp add: register_try_def form Inr signer Let_def data setData_def rk_def v_def)
        from failed [OF this] True show ?thesis
          by blast
      next
        case w1: None
        have s1: "setData rk v c = (Inr (), c1)"
          using w1 by (simp add: setData_def c1_def)
        show ?thesis
        proof (cases "getData_error c ''record_keys''")
          case (Some e)
          then have g: "getData ''record_keys'' c1 = (Inl e, c2)"
            by (simp add: getData_def c1_def c2_def)
          have "register_try h app1 c = (Inl e, c2)"
            using s1 g unfolding rk_def v_def
            by (simp add: register_try_def form Inr signer Let_def data)
          from failed [OF this] True Inr show ?thesis
            by (simp add: c2_def c1_def v_def)
        next
          case r: None
          then have g: "getData ''record_keys'' c1 = (Inr (storage c1 ''record_keys''), c2)"
            by (simp add: getData_def c1_def c2_def)
          show ?thesis
          proof (cases "push (parse_keys (storage c1 ''record_keys'')) (JStr (recordId_of h))")
            case (Inl e)
            have "register_try h app1 c = (Inl e, c2)"
              using s1 g Inl unfolding rk_def v_def
              by (simp add: register_try_def form Inr signer Let_def data)
            from failed [OF this] True \<open>btoa_JSON h (newRecordData app) = Inr b64\<close> show ?thesis
              by (simp add: c2_def c1_def v_def)
          next
            case keys: (Inr keys)
            define w2 where "w2 = SetData ''record_keys'' (JSON_stringify keys)"
            have pk: "push (parse_keys (storage c ''record_keys'')) (JStr (recordId_of h)) = Inr keys"
              using keys record_key_not_index [of h] by (simp add: c1_def rk_def)
            show ?thesis
            proof (cases "setData_error c ''record_keys''")
              case (Some e)
              then have s2: "setData ''record_keys'' (JSON_stringify keys) c2
                               = (Inl e, c2\<lparr>calls := calls c2 @ [w2]\<rparr>)"
                by (simp add: setData_def c1_def c2_def w2_def)
              have "register_try h app1 c = (Inl e, c2\<lparr>calls := calls c2 @ [w2]\<rparr>)"
                using s1 g keys s2 unfolding rk_def v_def
                by (simp add: register_try_def form Inr signer Let_def data)
              from failed [OF this] True \<open>btoa_JSON h (newRecordData app) = Inr b64\<close> pk
              show ?thesis
                by (simp add: c2_def c1_def v_def w2_def)
            next
              case None
              define c3 where
                "c3 = c2\<lparr>storage := (storage c2)(''record_keys'' := JSON_stringify keys),
                          calls := calls c2 @ [w2]\<rparr>"
              define app2 where
                "app2 = setTransactionStatus TxSuccess ''Voter registration submitted securely!'' app1"
              have s2: "setData ''record_keys'' (JSON_stringify keys) c2 = (Inr (), c3)"
                using None by (simp add: setData_def c1_def c2_def c3_def w2_def)
              have rt: "register_try h app1 c =
                          (Inr (fst (loadRecords app2 c3)), snd (loadRecords app2 c3))"
                using s1 g keys s2 unfolding rk_def v_def app2_def
                by (simp add: register_try_def form Inr signer Let_def data case_prod_beta)
              obtain cs where cs: "snd (loadRecords app2 c3) = c3\<lparr>calls := calls c3 @ cs\<rparr>"
                and nw: "\<forall>k v. SetData k v \<notin> set cs"
                and down: "\<not> available c3 \<longrightarrow> cs = (if reader c3 then [IsAvailable] else [])"
                using loadRecords_chain [of app2 c3] by blast
              have down': "\<not> available c \<longrightarrow> cs = (if reader c then [IsAvailable] else [])"
                using down by (simp add: c3_def c2_def c1_def)
              have "s = TxSuccess"
                by (simp add: s_def rv rt loadRecords_fst app2_def setTransactionStatus_fields)
              moreover have "c' = c3\<lparr>calls := calls c3 @ cs\<rparr>"
                by (simp add: c'_def rv rt cs)
              ultimately have "provider app \<and> s = TxSuccess
                  \<and> btoa_JSON h (newRecordData app) = Inr b64
                  \<and> push (parse_keys (storage c ''record_keys'')) (JStr (recordId_of h)) = Inr keys
                  \<and> (\<forall>k v. SetData k v \<notin> set cs)
                  \<and> (\<not> available c \<longrightarrow> cs = (if reader c then [IsAvailable] else []))
                  \<and> c' = c\<lparr>storage := (storage c)
                              (rk := JSON_stringify (recordData_of h app (''FHE-'' @ b64)),
                               ''record_keys'' := JSON_stringify keys),
                            calls := calls c @
                              [SetData rk (JSON_stringify (recordData_of h app (''FHE-'' @ b64))),
                               GetData ''record_keys'',
                               SetData ''record_keys'' (JSON_stringify keys)] @ cs\<rparr>"
                using True \<open>btoa_JSON h (newRecordData app) = Inr b64\<close> pk nw down'
                by (simp add: c3_def c2_def c1_def v_def w2_def)
              then show ?thesis
                by - (intro disjI2, intro exI, assumption)
            qed
          qed
        qed
      qed
    qed
  qed
qed

lemma loadRecords_snd: "snd (loadRecords a c) = snd (loadRecords b c)"
  by (simp add: loadRecords_def Let_def isAvailable_def getData_def case_prod_beta
      split: sum.splits option.splits)

lemma loadRecords_records:
  "records a = records b \<Longrightarrow> records (fst (loadRecords a c)) = records (fst (loadRecords b c))"
  by (simp add: loadRecords_def Let_def isAvailable_def getData_def case_prod_beta
      split: sum.splits option.splits)

text \<open>A registration in which no step fails.\<close>

lemma register_done:
  assumes "provider app" and "btoa_JSON h (newRecordData app) = Inr b64" and "signer c"
    and "setData_error c rk = None"
    and "getData_error c ''record_keys'' = None"
    and "setData_error c ''record_keys'' = None"
    and "push (parse_keys (storage c ''record_keys'')) (JStr (recordId_of h)) = Inr keys"
    and "rk = ''record_'' @ recordId_of h"
    and "v = JSON_stringify (recordData_of h app (''FHE-'' @ b64))"
    and "c3 = c\<lparr>storage := (storage c)(rk := v, ''record_keys'' := JSON_stringify keys),
                 calls := calls c @ [SetData rk v, GetData ''record_keys'',
                                     SetData ''record_keys'' (JSON_stringify keys)]\<rparr>"
  shows "snd (registerVoter h app c) = snd (loadRecords app c3)"
    and "records (fst (registerVoter h app c)) = records (fst (loadRecords app c3))"
    and "tx_status (transactionStatus (fst (registerVoter h app c))) = TxSuccess"
proof -
  define app1 where
    "app1 = setTransactionStatus TxPending ''Encrypting voter data with FHE...''
              (app\<lparr>registering := True\<rparr>)"
  define app2 where
    "app2 = setTransactionStatus TxSuccess ''Voter registration submitted securely!'' app1"
  have rv: "registerVoter h app c =
      (case register_try h app1 c of
         (Inl e, d) \<Rightarrow> ((register_catch e app1)\<lparr>registering := False\<rparr>, d)
       | (Inr a, d) \<Rightarrow> (a\<lparr>registering := False\<rparr>, d))"
    using assms(1) unfolding registerVoter_def app1_def Let_def by simp
  have form: "newRecordData app1 = newRecordData app"
    by (simp add: app1_def setTransactionStatus_def)
  have data: "recordData_of h app1 x = recordData_of h app x" for x
    by (simp add: app1_def recordData_of_cong)
  have ne: "rk \<noteq> ''record_keys''"
    using record_key_not_index [of h] assms(8) by simp
  define c1 where "c1 = c\<lparr>storage := (storage c)(rk := v), calls := calls c @ [SetData rk v]\<rparr>"
  define c2 where "c2 = c1\<lparr>calls := calls c1 @ [GetData ''record_keys'']\<rparr>"
  have s1: "setData rk v c = (Inr (), c1)"
    using assms(4) by (simp add: setData_def c1_def)
  have g: "getData ''record_keys'' c1 = (Inr (storage c ''record_keys''), c2)"
    using assms(5) ne by (simp add: getData_def c1_def c2_def)
  have s2: "setData ''record_keys'' (JSON_stringify keys) c2 = (Inr (), c3)"
    using assms(6) by (simp add: setData_def c1_def c2_def assms(10))
  have rt: "register_try h app1 c = (Inr (fst (loadRecords app2 c3)), snd (loadRecords app2 c3))"
    using s1 g s2 assms(2,3,7) unfolding app2_def assms(8,9)
    by (simp add: register_try_def form Let_def data case_prod_beta)
  show "snd (registerVoter h app c) = snd (loadRecords app c3)"
    using loadRecords_snd [of app2 c3 app] by (simp add: rv rt)
  have "records app2 = records app"
    by (simp add: app2_def app1_def setTransactionStatus_def)
  then show "records (fst (registerVoter h app c)) = records (fst (loadRecords app c3))"
    using loadRecords_records [of app2 app c3] by (simp add: rv rt)
  show "tx_status (transactionStatus (fst (registerVoter h app c))) = TxSuccess"
    by (simp add: rv rt loadRecords_fst app2_def setTransactionStatus_fields)
qed

text \<open>The paths of a transition.\<close>

lemma transition_idle:
  "\<not> provider app \<Longrightarrow> transition st ok failed app c i = (app, c)"
  by (simp add: transition_def)

lemma transition_done:
  assumes "provider app" and "signer c"
    and "getData_error c (''record_'' @ ToString i) = None"
    and "setData_error c (''record_'' @ ToString i) = None"
    and "storage c (''record_'' @ ToString i) = Utf8Json v"
  shows "transition st ok failed app c i =
           loadRecords
             (setTransactionStatus TxSuccess ok
                (setTransactionStatus TxPending ''Processing encrypted data with FHE...'' app))
             (c\<lparr>storage := (storage c)(''record_'' @ ToString i :=
                               Utf8Json (JObj (set_prop ''status'' (JStr st) (spread v)))),
                 calls := calls c @
                   [GetData (''record_'' @ ToString i),
                    SetData (''record_'' @ ToString i)
                      (Utf8Json (JObj (set_prop ''status'' (JStr st) (spread v))))]\<rparr>)"
  using assms
  by (simp add: transition_def transition_try_def Let_def getData_def setData_def
      JSON_stringify_def setTransactionStatus_fields case_prod_beta)

lemma loadRecords_storage: "storage (snd (loadRecords app c)) = storage c"
proof -
  obtain cs where "snd (loadRecords app c) = c\<lparr>calls := calls c @ cs\<rparr>"
    using loadRecords_chain by blast
  then show ?thesis
    by simp
qed

lemma loadRecords_account:
  "loadRecords (app\<lparr>account := a\<rparr>) c =
     ((fst (loadRecords app c))\<lparr>account := a\<rparr>, snd (loadRecords app c))"
  by (simp add: loadRecords_def Let_def isAvailable_def getData_def case_prod_beta
      split: sum.splits option.splits)

lemma setTransactionStatus_account:
  "setTransactionStatus s m (app\<lparr>account := a\<rparr>) = (setTransactionStatus s m app)\<lparr>account := a\<rparr>"
  by (simp add: setTransactionStatus_def)

lemma transition_try_account:
  "transition_try st ok (app\<lparr>account := a\<rparr>) c i =
     (map_sum id (\<lambda>p. p\<lparr>account := a\<rparr>) (fst (transition_try st ok app c i)),
      snd (transition_try st ok app c i))"
  by (simp add: transition_try_def Let_def getData_def setData_def case_prod_beta
      setTransactionStatus_account loadRecords_account
      split: sum.splits option.splits)

lemma transition_account:
  "transition st ok failed (app\<lparr>account := a\<rparr>) c i =
     ((fst (transition st ok failed app c i))\<lparr>account := a\<rparr>,
      snd (transition st ok failed app c i))"
proof (cases "provider app")
  case False
  then show ?thesis
    by (simp add: transition_def)
next
  case True
  define app1 where
    "app1 = setTransactionStatus TxPending ''Processing encrypted data with FHE...'' app"
  have tr: "transition st ok failed app' c i =
      (case transition_try st ok
              (setTransactionStatus TxPending ''Processing encrypted data with FHE...'' app') c i of
         (Inl e, d) \<Rightarrow>
           (transition_catch failed e
              (setTransactionStatus TxPending ''Processing encrypted data with FHE...'' app'), d)
       | (Inr p, d) \<Rightarrow> (p, d))" if "provider app'" for app'
    using that unfolding transition_def Let_def by simp
  have catch: "transition_catch failed e (p\<lparr>account := a\<rparr>) = (transition_catch failed e p)\<lparr>account := a\<rparr>"
    for e p
    by (simp add: transition_catch_def setTransactionStatus_account)
  obtain r d where r: "transition_try st ok app1 c i = (r, d)"
    by (cases "transition_try st ok app1 c i")
  have "transition_try st ok (app1\<lparr>account := a\<rparr>) c i = (map_sum id (\<lambda>p. p\<lparr>account := a\<rparr>) r, d)"
    by (simp add: transition_try_account r)
  then show ?thesis
    using True r
    by (cases r) (simp_all add: tr setTransactionStatus_account catch flip: app1_def)
qed

lemma transition_outcomes:
  fixes st ok failed app c i
  defines "rk \<equiv> ''record_'' @ ToString i"
    and "c' \<equiv> snd (transition st ok failed app c i)"
    and "s \<equiv> tx_status (transactionStatus (fst (transition st ok failed app c i)))"
  shows "(transition st ok failed app c i = (app, c) \<and> \<not> provider app)
    \<or> (provider app \<and> s = TxError \<and> c' = c)
    \<or> (provider app \<and> s = TxError \<and> c' = c\<lparr>calls := calls c @ [GetData rk]\<rparr>)
    \<or> (\<exists>w. provider app \<and> s = TxError \<and> c' = c\<lparr>calls := calls c @ [GetData rk, SetData rk w]\<rparr>)
    \<or> (\<exists>v cs. provider app \<and> s = TxSuccess \<and> JSON_parse (storage c rk) = Inr v
          \<and> (\<forall>k w. SetData k w \<notin> set cs)
          \<and> (\<not> available c \<longrightarrow> cs = (if reader c then [IsAvailable] else []))
          \<and> c' = c\<lparr>storage := (storage c)
                      (rk := JSON_stringify (JObj (set_prop ''status'' (JStr st) (spread v)))),
                    calls := calls c @
                      [GetData rk,
                       SetData rk (JSON_stringify (JObj (set_prop ''status'' (JStr st) (spread v))))]
                      @ cs\<rparr>)"
proof (cases "provider app")
  case False
  then show ?thesis
    by (simp add: transition_def)
next
  case True
  define app1 where
    "app1 = setTransactionStatus TxPending ''Processing encrypted data with FHE...'' app"
  have tr: "transition st ok failed app c i =
      (case transition_try st ok app1 c i of
         (Inl e, d) \<Rightarrow> (transition_catch failed e app1, d)
       | (Inr p, d) \<Rightarrow> (p, d))"
    using True unfolding transition_def app1_def Let_def by simp
  have failed: "s = TxError \<and> c' = d" if "transition_try st ok app1 c i = (Inl e, d)" for e d
    using that by (simp add: s_def c'_def tr transition_catch_def setTransactionStatus_def)
  define c1 where "c1 = c\<lparr>calls := calls c @ [GetData rk]\<rparr>"
  show ?thesis
  proof (cases "signer c")
    case False
    then have "transition_try st ok app1 c i = (Inl (Error ''Failed to get contract with signer''), c)"
      by (simp add: transition_try_def)
    from failed [OF this] True show ?thesis
      by simp
  next
    case signer: True
    show ?thesis
    proof (cases "getData_error c rk")
      case (Some e)
      then have "transition_try st ok app1 c i = (Inl e, c1)"
        unfolding rk_def c1_def by (simp add: transition_try_def signer getData_def)
      from failed [OF this] True show ?thesis
        by (simp add: c1_def)
    next
      case r: None
      then have g: "getData rk c = (Inr (storage c rk), c1)"
        by (simp add: getData_def c1_def)
      show ?thesis
      proof (cases "JSON_parse (storage c rk)")
        case (Inl e)
        have "\<exists>e'. transition_try st ok app1 c i = (Inl e', c1)"
          using g Inl unfolding rk_def by (simp add: transition_try_def signer)
        then obtain e' where "transition_try st ok app1 c i = (Inl e', c1)"
          by blast
        from failed [OF this] True show ?thesis
          by (simp add: c1_def)
      next
        case parsed: (Inr v)
        then have nonempty: "storage c rk \<noteq> Empty"
          by auto
        define w where "w = JSON_stringify (JObj (set_prop ''status'' (JStr st) (spread v)))"
        show ?thesis
        proof (cases "setData_error c rk")
          case (Some e)
          then have s1: "setData rk w c1 = (Inl e, c1\<lparr>calls := calls c1 @ [SetData rk w]\<rparr>)"
            by (simp add: setData_def c1_def)
          have "transition_try st ok app1 c i = (Inl e, c1\<lparr>calls := calls c1 @ [SetData rk w]\<rparr>)"
            using g parsed nonempty s1 unfolding rk_def w_def
            by (simp add: transition_try_def signer Let_def)
          from failed [OF this] True have
            "provider app \<and> s = TxError \<and> c' = c\<lparr>calls := calls c @ [GetData rk, SetData rk w]\<rparr>"
            by (simp add: c1_def)
          then show ?thesis
            by blast
        next
          case None
          define c2 where
            "c2 = c1\<lparr>storage := (storage c1)(rk := w), calls := calls c1 @ [SetData rk w]\<rparr>"
          define app2 where "app2 = setTransactionStatus TxSuccess ok app1"
          have s1: "setData rk w c1 = (Inr (), c2)"
            using None by (simp add: setData_def c1_def c2_def)
          have tt: "transition_try st ok app1 c i =
                      (Inr (fst (loadRecords app2 c2)), snd (loadRecords app2 c2))"
            using g parsed nonempty s1 unfolding rk_def w_def app2_def
            by (simp add: transition_try_def signer Let_def case_prod_beta)
          obtain cs where cs: "snd (loadRecords app2 c2) = c2\<lparr>calls := calls c2 @ cs\<rparr>"
            and nw: "\<forall>k v. SetData k v \<notin> set cs"
            and down: "\<not> available c2 \<longrightarrow> cs = (if reader c2 then [IsAvailable] else [])"
            using loadRecords_chain [of app2 c2] by blast
          have down': "\<not> available c \<longrightarrow> cs = (if reader c then [IsAvailable] else [])"
            using down by (simp add: c2_def c1_def)
          have "s = TxSuccess"
            by (simp add: s_def tr tt loadRecords_fst app2_def setTransactionStatus_fields)
          moreover have "c' = c2\<lparr>calls := calls c2 @ cs\<rparr>"
            by (simp add: c'_def tr tt cs)
          ultimately have "provider app \<and> s = TxSuccess \<and> JSON_parse (storage c rk) = Inr v
              \<and> (\<forall>k w. SetData k w \<notin> set cs)
              \<and> (\<not> available c \<longrightarrow> cs = (if reader c then [IsAvailable] else []))
              \<and> c' = c\<lparr>storage := (storage c)
                          (rk := JSON_stringify (JObj (set_prop ''status'' (JStr st) (spread v)))),
                        calls := calls c @
                          [GetData rk,
                           SetData rk (JSON_stringify
                             (JObj (set_prop ''status'' (JStr st) (spread v))))] @ cs\<rparr>"
            using True parsed nw down' by (simp add: c2_def c1_def w_def)
          then show ?thesis
            by - (intro disjI2, intro exI, assumption)
        qed
      qed
    qed
  qed
qed

section \<open>Facts about the example registration\<close>

lemma host0_id: "recordId_of host0 = ''1700123-k3j2h1g''"
  by (simp add: recordId_of_def host0_def substring_def digit_def dec.simps)

lemma host0_data: "recordData_of host0 app0 (''FHE-'' @ ''eyJ4Ijoi'') = recNew"
  by (simp add: recordData_of_def host0_def recNew_def app0_def)

section \<open>The availability probe\<close>

text \<open>
  C3, as stated, on a store whose probe answers false: \<^verbatim>\<open>registerVoter\<close> never asks, it
  writes the record and the index and reports success; the false answer, given to the
  refresh that ends the registration, is not surfaced as an error.
\<close>

theorem register_on_unavailable_store_counterexample:
  "available chain_down = False
   \<and> calls (snd (registerVoter host0 app0 chain_down)) =
       [SetData ''record_1700123-k3j2h1g'' (Utf8Json recNew),
        GetData ''record_keys'',
        SetData ''record_keys'' (Utf8Json (JArr [JStr ''a'', JStr ''b'', JStr ''1700123-k3j2h1g''])),
        IsAvailable]
   \<and> storage (snd (registerVoter host0 app0 chain_down)) ''record_1700123-k3j2h1g'' = Utf8Json recNew
   \<and> tx_status (transactionStatus (fst (registerVoter host0 app0 chain_down))) = TxSuccess"
proof -
  define c3 where
    "c3 = chain_down\<lparr>storage := (storage chain_down)
             (''record_1700123-k3j2h1g'' := Utf8Json recNew,
              ''record_keys'' := JSON_stringify (JArr [JStr ''a'', JStr ''b'', JStr ''1700123-k3j2h1g''])),
           calls := calls chain_down @
             [SetData ''record_1700123-k3j2h1g'' (Utf8Json recNew), GetData ''record_keys'',
              SetData ''record_keys''
                (JSON_stringify (JArr [JStr ''a'', JStr ''b'', JStr ''1700123-k3j2h1g'']))]\<rparr>"
  have pre: "provider app0" "btoa_JSON host0 (newRecordData app0) = Inr ''eyJ4Ijoi''"
    "signer chain_down" "setData_error chain_down ''record_1700123-k3j2h1g'' = None"
    "getData_error chain_down ''record_keys'' = None"
    "setData_error chain_down ''record_keys'' = None"
    by (simp_all add: app0_def host0_def chain_down_def chain0_def)
  have keys: "push (parse_keys (storage chain_down ''record_keys'')) (JStr (recordId_of host0))
                = Inr (JArr [JStr ''a'', JStr ''b'', JStr ''1700123-k3j2h1g''])"
    by (simp add: host0_id chain_down_def chain0_def store0_def parse_keys_def)
  have rk: "''record_1700123-k3j2h1g'' = ''record_'' @ recordId_of host0"
    by (simp add: host0_id)
  have v: "Utf8Json recNew = JSON_stringify (recordData_of host0 app0 (''FHE-'' @ ''eyJ4Ijoi''))"
    by (simp only: host0_data JSON_stringify_def)
  note reg = register_done [OF pre keys rk v c3_def]
  have "\<not> available c3"
    by (simp add: c3_def chain_down_def chain0_def)
  from loadRecords_unavailable [OF this, of app0]
  have "snd (loadRecords app0 c3) = c3\<lparr>calls := calls c3 @ [IsAvailable]\<rparr>"
    by (simp add: c3_def chain_down_def chain0_def)
  with reg(1,3) show ?thesis
    by (simp add: c3_def chain_down_def chain0_def JSON_stringify_def)
qed

lemma register_new_calls:
  "new_calls c (snd (registerVoter h app c)) = []
   \<or> (\<exists>v rest. new_calls c (snd (registerVoter h app c)) = SetData (''record_'' @ recordId_of h) v # rest
         \<and> (\<not> available c \<longrightarrow> IsAvailable \<notin> set (butlast (SetData (''record_'' @ recordId_of h) v # rest))))"
  using register_outcomes [of h app c]
  by (elim disjE exE conjE) (simp_all add: new_calls_def)

lemma transition_new_calls:
  "new_calls c (snd (transition st ok failed app c i)) = []
   \<or> (\<exists>rest. new_calls c (snd (transition st ok failed app c i)) = GetData (''record_'' @ ToString i) # rest
         \<and> (\<not> available c \<longrightarrow> IsAvailable \<notin> set (butlast (GetData (''record_'' @ ToString i) # rest))))"
  using transition_outcomes [of st ok failed app c i]
  by (elim disjE exE conjE) (simp_all add: new_calls_def)

text \<open>
  C3, amended. Only the refresh probes the store. When \<^verbatim>\<open>isAvailable()\<close> answers false, a
  refresh makes no further call, keeps the records it had and returns normally; it
  surfaces no error. \<^verbatim>\<open>registerVoter\<close>, \<^verbatim>\<open>verifyRecord\<close> and \<^verbatim>\<open>rejectRecord\<close> do not
  probe before their own calls: the first call they issue is \<^verbatim>\<open>setData\<close> of the record
  (register) or \<^verbatim>\<open>getData\<close> of the record (transition), and the only probe in them is
  that of the refresh that ends a successful run. So in each of the four operations no
  \<^verbatim>\<open>getData\<close> or \<^verbatim>\<open>setData\<close> follows a false probe.
\<close>

theorem false_probe_is_last_call:
  assumes "\<not> available c"
  shows "loadRecords app c =
           (app\<lparr>isRefreshing := False, loading := False\<rparr>,
            c\<lparr>calls := calls c @ (if reader c then [IsAvailable] else [])\<rparr>)
       \<and> IsAvailable \<notin> set (butlast (new_calls c (snd (registerVoter h app c))))
       \<and> IsAvailable \<notin> set (butlast (new_calls c (snd (verifyRecord app c i))))
       \<and> IsAvailable \<notin> set (butlast (new_calls c (snd (rejectRecord app c i))))
       \<and> (new_calls c (snd (registerVoter h app c)) = []
            \<or> (\<exists>v. hd (new_calls c (snd (registerVoter h app c)))
                      = SetData (''record_'' @ recordId_of h) v))
       \<and> (new_calls c (snd (verifyRecord app c i)) = []
            \<or> hd (new_calls c (snd (verifyRecord app c i))) = GetData (''record_'' @ ToString i))
       \<and> (new_calls c (snd (rejectRecord app c i)) = []
            \<or> hd (new_calls c (snd (rejectRecord app c i))) = GetData (''record_'' @ ToString i))"
proof -
  have reg: "IsAvailable \<notin> set (butlast (new_calls c (snd (registerVoter h app c))))"
    "new_calls c (snd (registerVoter h app c)) = []
       \<or> (\<exists>v. hd (new_calls c (snd (registerVoter h app c)))
                 = SetData (''record_'' @ recordId_of h) v)"
    using register_new_calls [of c h app] assms by auto
  have tr: "IsAvailable \<notin> set (butlast (new_calls c (snd (transition st ok failed app c i))))"
    "new_calls c (snd (transition st ok failed app c i)) = []
       \<or> hd (new_calls c (snd (transition st ok failed app c i))) = GetData (''record_'' @ ToString i)"
    for st ok failed
    using transition_new_calls [of c st ok failed app i] assms by auto
  show ?thesis
    using reg tr loadRecords_unavailable [OF assms, of app]
    unfolding verifyRecord_def rejectRecord_def by blast
qed

theorem false_probe_is_last_call_witness:
  "\<not> available chain_down
   \<and> records (fst (loadRecords app1 chain_down)) = [recordA]
   \<and> calls (snd (loadRecords app1 chain_down)) = [IsAvailable]
   \<and> IsAvailable \<notin> set (butlast (new_calls chain_down (snd (registerVoter host0 app0 chain_down))))
   \<and> IsAvailable \<notin> set (butlast (new_calls chain_down (snd (verifyRecord app0 chain_down (JStr ''a'')))))"
proof -
  have down: "\<not> available chain_down"
    by (simp add: chain_down_def)
  show ?thesis
    using down false_probe_is_last_call [OF down, of app1 host0 "JStr ''a''"]
      false_probe_is_last_call [OF down, of app0 host0 "JStr ''a''"]
    by (simp add: chain_down_def chain0_def app1_def app0_def)
qed

section \<open>Properties of an object\<close>

lemma map_of_set_prop:
  "map_of (set_prop name x ps) k = (if k = name then Some x else map_of ps k)"
  by (induction ps) auto







section \<open>The actions of a row\<close>

lemma row_actions_shown:
  assumes "row_actions app r = Inr bs" and "bs \<noteq> []"
  shows "\<exists>a. owner r = Some (JStr a) \<and> toLowerCase (account app) = toLowerCase a"
    and "status r = JStr ''pending''"
    and "bs = [Verify (id_field r), Reject (id_field r)]"
  using assms
  by (auto simp add: row_actions_def isOwner_def
      split: option.splits json.splits sum.splits if_splits)

section \<open>Transitions\<close>

text \<open>A transition on a stored record that parses, with no call failing.\<close>

lemma transition_effect:
  assumes "provider app" and "signer c"
    and "getData_error c (''record_'' @ ToString i) = None"
    and "setData_error c (''record_'' @ ToString i) = None"
    and "storage c (''record_'' @ ToString i) = Utf8Json v"
  shows "storage (snd (transition st ok failed app c i)) =
           (storage c)(''record_'' @ ToString i :=
              Utf8Json (JObj (set_prop ''status'' (JStr st) (spread v))))"
    and "transactionStatus (fst (transition st ok failed app c i)) =
           \<lparr>visible = True, tx_status = TxSuccess, tx_message = ok\<rparr>"
    and "provider (fst (transition st ok failed app c i))"
    and "signer (snd (transition st ok failed app c i))"
    and "getData_error (snd (transition st ok failed app c i)) = getData_error c"
    and "setData_error (snd (transition st ok failed app c i)) = setData_error c"
proof -
  define app2 where
    "app2 = setTransactionStatus TxSuccess ok
              (setTransactionStatus TxPending ''Processing encrypted data with FHE...'' app)"
  define rk where "rk = ''record_'' @ ToString i"
  define w where "w = Utf8Json (JObj (set_prop ''status'' (JStr st) (spread v)))"
  define c2 where
    "c2 = c\<lparr>storage := (storage c)(rk := w), calls := calls c @ [GetData rk, SetData rk w]\<rparr>"
  have tr: "transition st ok failed app c i = loadRecords app2 c2"
    unfolding app2_def c2_def rk_def w_def by (rule transition_done [OF assms])
  obtain cs where cs: "snd (loadRecords app2 c2) = c2\<lparr>calls := calls c2 @ cs\<rparr>"
    using loadRecords_chain [of app2 c2] by blast
  have "storage (snd (transition st ok failed app c i)) = (storage c)(rk := w)"
    by (simp add: tr cs) (simp add: c2_def)
  then show "storage (snd (transition st ok failed app c i)) =
           (storage c)(''record_'' @ ToString i :=
              Utf8Json (JObj (set_prop ''status'' (JStr st) (spread v))))"
    by (simp only: rk_def w_def)
  have "transactionStatus app2 = \<lparr>visible = True, tx_status = TxSuccess, tx_message = ok\<rparr>"
    by (simp add: app2_def setTransactionStatus_def)
  then show "transactionStatus (fst (transition st ok failed app c i)) =
          \<lparr>visible = True, tx_status = TxSuccess, tx_message = ok\<rparr>"
    by (simp add: tr loadRecords_fst)
  have "provider app2"
    using assms(1) by (simp add: app2_def setTransactionStatus_fields)
  then show "provider (fst (transition st ok failed app c i))"
    by (simp add: tr loadRecords_fst)
  show "signer (snd (transition st ok failed app c i))"
    using assms(2) by (simp add: tr cs) (simp add: c2_def)
  show "getData_error (snd (transition st ok failed app c i)) = getData_error c"
    by (simp add: tr cs) (simp add: c2_def)
  show "setData_error (snd (transition st ok failed app c i)) = setData_error c"
    by (simp add: tr cs) (simp add: c2_def)
qed

section \<open>Facts about transitions on the example record\<close>

lemma chain0_a:
  "signer chain0"
  "getData_error chain0 (''record_'' @ ToString (JStr ''a'')) = None"
  "setData_error chain0 (''record_'' @ ToString (JStr ''a'')) = None"
  "storage chain0 (''record_'' @ ToString (JStr ''a'')) = Utf8Json recA"
  by (simp_all add: chain0_def store0_def)

lemma recA_updated:
  "JObj (set_prop ''status'' (JStr ''verified'') (spread recA)) = recA_verified"
  "JObj (set_prop ''status'' (JStr ''rejected'') (spread recA)) = recA_rejected"
  "JObj (set_prop ''status'' (JStr ''rejected'') (spread recA_verified)) = recA_rejected"
  by (simp_all add: recA_def recA_verified_def recA_rejected_def)

lemma record_a_key: "''record_'' @ ToString (JStr ''a'') = ''record_a''"
  by simp

text \<open>
  C1, as stated, for the account \<^verbatim>\<open>0xB0b\<close> acting on the pending record \<open>a\<close> owned by
  \<^verbatim>\<open>0xA11ce\<close>: \<^verbatim>\<open>verifyRecord\<close> succeeds and the stored status becomes \<^verbatim>\<open>verified\<close>, and
  likewise \<^verbatim>\<open>rejectRecord\<close> makes it \<^verbatim>\<open>rejected\<close>.
\<close>

theorem stranger_verifies_counterexample:
  "account app0 = ''0xB0b''
   \<and> storage chain0 ''record_a'' = Utf8Json recA
   \<and> get_prop ''owner'' recA = Some (JStr ''0xA11ce'')
   \<and> get_prop ''status'' recA = Some (JStr ''pending'')
   \<and> storage (snd (verifyRecord app0 chain0 (JStr ''a''))) ''record_a'' = Utf8Json recA_verified
   \<and> transactionStatus (fst (verifyRecord app0 chain0 (JStr ''a''))) =
       \<lparr>visible = True, tx_status = TxSuccess,
        tx_message = ''FHE verification completed successfully!''\<rparr>
   \<and> storage (snd (rejectRecord app0 chain0 (JStr ''a''))) ''record_a'' = Utf8Json recA_rejected
   \<and> tx_status (transactionStatus (fst (rejectRecord app0 chain0 (JStr ''a'')))) = TxSuccess"
proof -
  have p: "provider app0"
    by (simp add: app0_def)
  have "account app0 = ''0xB0b''"
    by (simp add: app0_def)
  moreover have "storage chain0 ''record_a'' = Utf8Json recA"
    by (simp add: chain0_def store0_def)
  moreover have "get_prop ''owner'' recA = Some (JStr ''0xA11ce'')"
    and "get_prop ''status'' recA = Some (JStr ''pending'')"
    by (simp_all add: recA_def)
  moreover have "storage (snd (verifyRecord app0 chain0 (JStr ''a''))) ''record_a'' = Utf8Json recA_verified"
    unfolding verifyRecord_def transition_effect(1) [OF p chain0_a] recA_updated record_a_key
    by simp
  moreover have "transactionStatus (fst (verifyRecord app0 chain0 (JStr ''a''))) =
       \<lparr>visible = True, tx_status = TxSuccess,
        tx_message = ''FHE verification completed successfully!''\<rparr>"
    unfolding verifyRecord_def by (rule transition_effect(2) [OF p chain0_a])
  moreover have "storage (snd (rejectRecord app0 chain0 (JStr ''a''))) ''record_a'' = Utf8Json recA_rejected"
    unfolding rejectRecord_def transition_effect(1) [OF p chain0_a] recA_updated record_a_key
    by simp
  moreover have "tx_status (transactionStatus (fst (rejectRecord app0 chain0 (JStr ''a'')))) = TxSuccess"
    unfolding rejectRecord_def transition_effect(2) [OF p chain0_a] by simp
  ultimately show ?thesis
    by (intro conjI)
qed

text \<open>
  C1, amended. \<^verbatim>\<open>verifyRecord\<close> and \<^verbatim>\<open>rejectRecord\<close> make no owner check and have no
  authorization error: what they do to the store and what they report is the same for
  every acting account. The owner is tested where the buttons of a row are rendered: a
  principal whose account differs from the record's owner, letter case aside, is shown
  no Verify or Reject button for the record.
\<close>

theorem transition_ignores_account:
  "verifyRecord (app\<lparr>account := a\<rparr>) c i =
     ((fst (verifyRecord app c i))\<lparr>account := a\<rparr>, snd (verifyRecord app c i))
   \<and> rejectRecord (app\<lparr>account := a\<rparr>) c i =
     ((fst (rejectRecord app c i))\<lparr>account := a\<rparr>, snd (rejectRecord app c i))
   \<and> (\<forall>r x. owner r = Some (JStr x) \<and> toLowerCase (account app) \<noteq> toLowerCase x
          \<longrightarrow> row_actions app r = Inr [])"
proof -
  have "row_actions app r = Inr []"
    if "owner r = Some (JStr x)" and "toLowerCase (account app) \<noteq> toLowerCase x" for r x
    using that by (simp add: row_actions_def isOwner_def)
  then show ?thesis
    unfolding verifyRecord_def rejectRecord_def transition_account by blast
qed

theorem transition_ignores_account_witness:
  "owner recordA = Some (JStr ''0xA11ce'')
   \<and> toLowerCase (account app0) \<noteq> toLowerCase ''0xA11ce''
   \<and> row_actions app0 recordA = Inr []
   \<and> snd (verifyRecord (app_owner\<lparr>account := ''0xB0b''\<rparr>) chain0 (JStr ''a'')) =
       snd (verifyRecord app_owner chain0 (JStr ''a''))"
proof -
  have o: "owner recordA = Some (JStr ''0xA11ce'')"
    by (simp add: recordA_def)
  have l: "toLowerCase (account app0) \<noteq> toLowerCase ''0xA11ce''"
    by (simp add: app0_def toLowerCase_def)
  have "row_actions app0 recordA = Inr []"
    using o l transition_ignores_account [where app = app0] by blast
  moreover have "snd (verifyRecord (app_owner\<lparr>account := ''0xB0b''\<rparr>) chain0 (JStr ''a'')) =
       snd (verifyRecord app_owner chain0 (JStr ''a''))"
    using transition_ignores_account [where app = app_owner and a = "''0xB0b''" and c = chain0
        and i = "JStr ''a''"]
    by simp
  ultimately show ?thesis
    using o l by (intro conjI)
qed

text \<open>
  C2, as stated, for the owner of the record \<open>a\<close>: after a successful
  \<^verbatim>\<open>verifyRecord\<close> the stored status is \<^verbatim>\<open>verified\<close>, and a following \<^verbatim>\<open>rejectRecord\<close>
  does not fail: it reports success and the stored status becomes \<^verbatim>\<open>rejected\<close>.
\<close>

theorem reject_after_verify_counterexample:
  "account app_owner = ''0xA11ce''
   \<and> get_prop ''owner'' recA = Some (JStr ''0xA11ce'')
   \<and> storage (snd (verifyRecord app_owner chain0 (JStr ''a''))) ''record_a'' = Utf8Json recA_verified
   \<and> get_prop ''status'' recA_verified = Some (JStr ''verified'')
   \<and> storage (snd (rejectRecord (fst (verifyRecord app_owner chain0 (JStr ''a'')))
                                 (snd (verifyRecord app_owner chain0 (JStr ''a'')))
                                 (JStr ''a''))) ''record_a'' = Utf8Json recA_rejected
   \<and> transactionStatus (fst (rejectRecord (fst (verifyRecord app_owner chain0 (JStr ''a'')))
                                           (snd (verifyRecord app_owner chain0 (JStr ''a'')))
                                           (JStr ''a''))) =
       \<lparr>visible = True, tx_status = TxSuccess,
        tx_message = ''FHE rejection completed successfully!''\<rparr>"
proof -
  define a1 where "a1 = fst (verifyRecord app_owner chain0 (JStr ''a''))"
  define c1 where "c1 = snd (verifyRecord app_owner chain0 (JStr ''a''))"
  have p: "provider app_owner"
    by (simp add: app_owner_def app0_def)
  note v = transition_effect [OF p chain0_a, of "''verified''"
      "''FHE verification completed successfully!''" "''Verification failed: ''",
      folded verifyRecord_def a1_def c1_def]
  have st1: "storage c1 (''record_'' @ ToString (JStr ''a'')) = Utf8Json recA_verified"
    unfolding v(1) recA_updated by simp
  have g1: "getData_error c1 (''record_'' @ ToString (JStr ''a'')) = None"
    and s1: "setData_error c1 (''record_'' @ ToString (JStr ''a'')) = None"
    unfolding v(5) v(6) by (rule chain0_a)+
  note r = transition_effect [OF v(3) v(4) g1 s1 st1, of "''rejected''"
      "''FHE rejection completed successfully!''" "''Rejection failed: ''",
      folded rejectRecord_def]
  have "account app_owner = ''0xA11ce''"
    by (simp add: app_owner_def)
  moreover have "get_prop ''owner'' recA = Some (JStr ''0xA11ce'')"
    by (simp add: recA_def)
  moreover have "storage c1 ''record_a'' = Utf8Json recA_verified"
    using st1 by simp
  moreover have "get_prop ''status'' recA_verified = Some (JStr ''verified'')"
    by (simp add: recA_verified_def)
  moreover have "storage (snd (rejectRecord a1 c1 (JStr ''a''))) ''record_a'' = Utf8Json recA_rejected"
    unfolding r(1) recA_updated by simp
  moreover note r(2)
  ultimately show ?thesis
    unfolding a1_def c1_def by (intro conjI)
qed

text \<open>
  C2, amended. \<^verbatim>\<open>verifyRecord\<close> and \<^verbatim>\<open>rejectRecord\<close> do not read the stored status and
  have no invalid-transition error: on every stored record that parses they succeed and
  overwrite the status with their own, so a verified record can still be rejected and a
  rejected one verified. The status is tested where the buttons of a row are rendered: a
  record whose displayed status is not \<^verbatim>\<open>pending\<close> is shown no Verify or Reject button.
\<close>

theorem transition_overwrites_status:
  assumes "provider app" and "signer c"
    and "getData_error c (''record_'' @ ToString i) = None"
    and "setData_error c (''record_'' @ ToString i) = None"
    and "storage c (''record_'' @ ToString i) = Utf8Json v"
  shows "storage (snd (verifyRecord app c i)) =
           (storage c)(''record_'' @ ToString i :=
              Utf8Json (JObj (set_prop ''status'' (JStr ''verified'') (spread v))))
       \<and> get_prop ''status'' (JObj (set_prop ''status'' (JStr ''verified'') (spread v)))
           = Some (JStr ''verified'')
       \<and> tx_status (transactionStatus (fst (verifyRecord app c i))) = TxSuccess
       \<and> storage (snd (rejectRecord app c i)) =
           (storage c)(''record_'' @ ToString i :=
              Utf8Json (JObj (set_prop ''status'' (JStr ''rejected'') (spread v))))
       \<and> get_prop ''status'' (JObj (set_prop ''status'' (JStr ''rejected'') (spread v)))
           = Some (JStr ''rejected'')
       \<and> tx_status (transactionStatus (fst (rejectRecord app c i))) = TxSuccess
       \<and> (\<forall>r bs. status r \<noteq> JStr ''pending'' \<and> row_actions app r = Inr bs \<longrightarrow> bs = [])"
proof -
  note eff = transition_effect [OF assms]
  have shown: "bs = []" if "status r \<noteq> JStr ''pending''" and "row_actions app r = Inr bs" for r bs
    using row_actions_shown(2) [OF that(2)] that(1) by blast
  have written: "get_prop ''status'' (JObj (set_prop ''status'' x (spread v))) = Some x" for x
    by (simp add: map_of_set_prop)
  have "tx_status (transactionStatus (fst (transition st ok failed app c i))) = TxSuccess"
    for st ok failed
    unfolding eff(2) by simp
  then show ?thesis
    unfolding verifyRecord_def rejectRecord_def eff(1) written using shown by blast
qed

theorem transition_overwrites_status_witness:
  "provider app_owner \<and> signer chainV
   \<and> getData_error chainV (''record_'' @ ToString (JStr ''a'')) = None
   \<and> setData_error chainV (''record_'' @ ToString (JStr ''a'')) = None
   \<and> storage chainV (''record_'' @ ToString (JStr ''a'')) = Utf8Json recA_verified
   \<and> storage (snd (rejectRecord app_owner chainV (JStr ''a''))) ''record_a'' = Utf8Json recA_rejected
   \<and> tx_status (transactionStatus (fst (rejectRecord app_owner chainV (JStr ''a'')))) = TxSuccess
   \<and> status recordA_verified \<noteq> JStr ''pending''
   \<and> row_actions app_owner recordA_verified = Inr []"
proof -
  have pre: "provider app_owner" "signer chainV"
    "getData_error chainV (''record_'' @ ToString (JStr ''a'')) = None"
    "setData_error chainV (''record_'' @ ToString (JStr ''a'')) = None"
    "storage chainV (''record_'' @ ToString (JStr ''a'')) = Utf8Json recA_verified"
    by (simp_all add: app_owner_def app0_def chainV_def chain0_def)
  note t = transition_overwrites_status [OF pre]
  have "storage (snd (rejectRecord app_owner chainV (JStr ''a''))) ''record_a'' = Utf8Json recA_rejected"
    using t unfolding recA_updated by simp
  moreover have "tx_status (transactionStatus (fst (rejectRecord app_owner chainV (JStr ''a'')))) = TxSuccess"
    using t by blast
  moreover have "status recordA_verified \<noteq> JStr ''pending''"
    by (simp add: recordA_verified_def)
  moreover have "row_actions app_owner recordA_verified = Inr []"
    by (simp add: row_actions_def isOwner_def recordA_verified_def recordA_def app_owner_def)
  ultimately show ?thesis
    using pre by (intro conjI)
qed




section \<open>The codec\<close>

lemma is_string_iff: "is_string x \<longleftrightarrow> (\<exists>s. x = Some (JStr s))"
  by (cases x rule: is_string.cases) simp_all

lemma toVoterRecord_encode:
  assumes "valid_record r"
  shows "toVoterRecord (id_field r) (encode_record r) = Inr r"
proof -
  from assms obtain d t a g u where
    fields: "encryptedData r = Some (JStr d)" "timestamp r = Some (JNum t)"
      "owner r = Some (JStr a)" "region r = Some (JStr g)" "ageGroup r = Some (JStr u)"
    by (auto simp add: valid_record_def is_string_iff is_number_iff)
  from assms have st: "or_else (Some (status r)) (JStr ''pending'') = status r"
    by (auto simp add: valid_record_def or_else_def)
  have enc: "encode_record r =
      JObj [(''data'', JStr d), (''timestamp'', JNum t), (''owner'', JStr a),
            (''region'', JStr g), (''ageGroup'', JStr u), (''status'', status r)]"
    by (simp add: encode_record_def fields)
  show ?thesis
    unfolding enc by (simp add: toVoterRecord_def fields st)
qed

lemma encode_new_record:
  "recordData_of h app e = encode_record (new_record h app e)"
  "valid_record (new_record h app e)"
  by (simp_all add: recordData_of_def encode_record_def new_record_def valid_record_def)

lemma valid_comparable: "valid_record r \<Longrightarrow> comparable r"
  by (auto simp add: valid_record_def comparable_def is_number_iff)

text \<open>The loop body on a store that holds the encoding of a valid record under its key.\<close>

lemma fetch_encoded:
  assumes "valid_record r" and "id_field r = JStr i"
    and "getData_error c (''record_'' @ i) = None"
    and "storage c (''record_'' @ i) = JSON_stringify (encode_record r)"
  shows "fst (fetch_record (JStr i) c) = Some r"
  using assms toVoterRecord_encode [OF assms(1)]
  by (simp add: fetch_record_def getData_def JSON_stringify_def)

text \<open>A refresh of a store that holds the encoding of a valid record under an indexed id.\<close>

lemma read_back:
  assumes "valid_record r" and "id_field r = JStr i"
    and "reader c" and "available c" and "getData_error c ''record_keys'' = None"
    and "for_of (parse_keys (storage c ''record_keys'')) = Inr (map JStr ids)"
    and "i \<in> set ids"
    and "getData_error c (''record_'' @ i) = None"
    and "storage c (''record_'' @ i) = JSON_stringify (encode_record r)"
    and "length (decoded_records c ids) \<le> 1 \<or> (\<forall>x\<in>set (decoded_records c ids). comparable x)"
  shows "r \<in> set (records (fst (loadRecords app c)))"
    and "\<forall>x\<in>set (records (fst (loadRecords app c))). id_field x = JStr i \<longrightarrow> x = r"
proof -
  have got: "fst (fetch_record (JStr i) c) = Some r"
    by (rule fetch_encoded [OF assms(1,2,8,9)])
  from assms(10) obtain zs
    where zs: "sort_js by_timestamp (decoded_records c ids) = Inr zs"
    using sort_js_short [of "decoded_records c ids" by_timestamp]
      sort_js_comparable [of "decoded_records c ids"] by blast
  have recs: "records (fst (loadRecords app c)) = zs"
    by (simp add: loadRecords_done [OF assms(3-6)] zs)
  have elems: "set zs = {x. \<exists>j\<in>set ids. fst (fetch_record (JStr j) c) = Some x}"
    using sort_js_Inr [OF zs] by (simp add: set_decoded_records)
  show "r \<in> set (records (fst (loadRecords app c)))"
    unfolding recs elems using got assms(7) by blast
  have "x = r" if "x \<in> set zs" and "id_field x = JStr i" for x
  proof -
    from that(1) obtain j where j: "fst (fetch_record (JStr j) c) = Some x"
      unfolding elems by blast
    from fetch_record_id [OF j] that(2) have "j = i"
      by simp
    with j got show ?thesis
      by simp
  qed
  then show "\<forall>x\<in>set (records (fst (loadRecords app c))). id_field x = JStr i \<longrightarrow> x = r"
    unfolding recs by blast
qed

text \<open>The record is in the store as soon as the first write of a registration has gone through.\<close>

lemma register_record_written:
  assumes "provider app" and "btoa_JSON h (newRecordData app) = Inr b64" and "signer c"
    and "setData_error c (''record_'' @ recordId_of h) = None"
  shows "storage (snd (registerVoter h app c)) (''record_'' @ recordId_of h)
           = JSON_stringify (recordData_of h app (''FHE-'' @ b64))"
proof -
  define rk where "rk = ''record_'' @ recordId_of h"
  define v where "v = JSON_stringify (recordData_of h app (''FHE-'' @ b64))"
  define app1 where
    "app1 = setTransactionStatus TxPending ''Encrypting voter data with FHE...''
              (app\<lparr>registering := True\<rparr>)"
  have rv: "snd (registerVoter h app c) = snd (register_try h app1 c)"
    using assms(1) unfolding registerVoter_def app1_def Let_def
    by (simp add: case_prod_beta split: sum.splits)
  have form: "newRecordData app1 = newRecordData app"
    by (simp add: app1_def setTransactionStatus_def)
  have data: "recordData_of h app1 x = recordData_of h app x" for x
    by (simp add: app1_def recordData_of_cong)
  have ne: "rk \<noteq> ''record_keys''"
    using record_key_not_index [of h] by (simp add: rk_def)
  define c1 where "c1 = c\<lparr>storage := (storage c)(rk := v), calls := calls c @ [SetData rk v]\<rparr>"
  have s1: "setData rk v c = (Inr (), c1)"
    using assms(4) by (simp add: setData_def c1_def rk_def)
  define tail where
    "tail = (case getData ''record_keys'' c1 of
               (Inl e, c2) \<Rightarrow> (Inl e, c2)
             | (Inr keysBytes, c2) \<Rightarrow>
                 (case push (parse_keys keysBytes) (JStr (recordId_of h)) of
                    Inl e \<Rightarrow> (Inl e, c2)
                  | Inr keys \<Rightarrow>
                      (case setData ''record_keys'' (JSON_stringify keys) c2 of
                         (Inl e, c3) \<Rightarrow> (Inl e, c3)
                       | (Inr u, c3) \<Rightarrow>
                           (case loadRecords
                                   (setTransactionStatus TxSuccess
                                      ''Voter registration submitted securely!'' app1)
                                   c3 of
                              (app', c4) \<Rightarrow> (Inr app', c4)))))"
  have rt: "register_try h app1 c = tail"
    using s1 assms(2,3) unfolding tail_def rk_def v_def
    by (simp add: register_try_def form Let_def data)
  have "storage (snd tail) rk = v"
    unfolding tail_def using ne
    by (simp add: getData_def setData_def c1_def case_prod_beta loadRecords_storage
        split: sum.splits option.splits)
  then show ?thesis
    by (simp add: rv rt rk_def v_def)
qed

text \<open>What the loop reads after a registration in which no step has failed.\<close>

lemma fetch_after_register:
  assumes "rk = ''record_'' @ recordId_of h"
    and "storage d = (storage c)(rk := JSON_stringify (encode_record r),
                                 ''record_keys'' := JSON_stringify (JArr ks))"
    and "getData_error d = getData_error c"
    and "valid_record r" and "id_field r = JStr (recordId_of h)"
    and "fst (fetch_record (JStr j) d) = Some x"
    and "\<forall>y. fst (fetch_record (JStr j) c) = Some y \<longrightarrow> comparable y"
  shows "comparable x"
proof (cases "''record_'' @ j = rk")
  case True
  then have j: "j = recordId_of h"
    using assms(1) by simp
  have "getData_error d rk = None"
    using assms(6) True by (auto simp add: fetch_record_def getData_def split: option.splits)
  then have "fst (fetch_record (JStr (recordId_of h)) d) = Some r"
    using assms(1,2) record_key_not_index [of h]
    by (intro fetch_encoded [OF assms(4,5)]) simp_all
  with assms(6) j have "x = r"
    by simp
  then show ?thesis
    using valid_comparable [OF assms(4)] by simp
next
  case other: False
  show ?thesis
  proof (cases "''record_'' @ j = ''record_keys''")
    case True
    then have "timestamp x = None"
      using assms(2,6)
      by (auto simp add: fetch_record_def getData_def toVoterRecord_def JSON_stringify_def
          split: option.splits)
    then show ?thesis
      by (simp add: comparable_def)
  next
    case False
    have "fst (fetch_record (JStr j) d) = fst (fetch_record (JStr j) c)"
      using other False assms(2,3) by (intro fetch_record_cong) simp_all
    with assms(6,7) show ?thesis
      by simp
  qed
qed

text \<open>
  C9. The encoding of a record is written by \<^verbatim>\<open>registerVoter\<close> and read by the refresh, and
  a valid record comes back in all its fields. For every valid record \<open>r\<close> whose encoding
  is stored under the key of its id, the loop body of the refresh decodes these bytes to
  \<open>r\<close>; and with the id in an index of strings, a refresh that reaches \<^verbatim>\<open>setRecords\<close>
  displays \<open>r\<close>, the only displayed record with this id. \<^verbatim>\<open>registerVoter\<close> stores, under
  the key of the new id, the encoding of the new record, which is valid, as soon as its
  first write goes through. And when no step of a registration fails, the refresh that
  ends it displays the new record with the id and the field values that the registration
  gave it. A refresh reaches \<^verbatim>\<open>setRecords\<close> when its sort does not throw: when it decodes at
  most one record, or the conversion of no decoded timestamp throws.
\<close>

theorem stored_record_round_trip:
  "(valid_record r \<and> id_field r = JStr i
      \<and> getData_error c (''record_'' @ i) = None
      \<and> storage c (''record_'' @ i) = JSON_stringify (encode_record r)
    \<longrightarrow> fst (fetch_record (JStr i) c) = Some r
        \<and> (reader c \<and> available c \<and> getData_error c ''record_keys'' = None
             \<and> for_of (parse_keys (storage c ''record_keys'')) = Inr (map JStr ids)
             \<and> i \<in> set ids
             \<and> (length (decoded_records c ids) \<le> 1
                 \<or> (\<forall>x\<in>set (decoded_records c ids). comparable x))
           \<longrightarrow> r \<in> set (records (fst (loadRecords app c)))
               \<and> (\<forall>x\<in>set (records (fst (loadRecords app c))). id_field x = JStr i \<longrightarrow> x = r)))
   \<and> (provider app \<and> btoa_JSON h (newRecordData app) = Inr b64 \<and> signer c
      \<and> setData_error c (''record_'' @ recordId_of h) = None
    \<longrightarrow> storage (snd (registerVoter h app c)) (''record_'' @ recordId_of h)
          = JSON_stringify (encode_record (new_record h app (''FHE-'' @ b64)))
        \<and> valid_record (new_record h app (''FHE-'' @ b64))
        \<and> id_field (new_record h app (''FHE-'' @ b64)) = JStr (recordId_of h))
   \<and> (provider app \<and> btoa_JSON h (newRecordData app) = Inr b64 \<and> signer c
      \<and> setData_error c (''record_'' @ recordId_of h) = None
      \<and> getData_error c ''record_keys'' = None
      \<and> setData_error c ''record_keys'' = None
      \<and> parse_keys (storage c ''record_keys'') = JArr (map JStr ids)
      \<and> reader c \<and> available c
      \<and> getData_error c (''record_'' @ recordId_of h) = None
      \<and> (\<forall>x\<in>set (decoded_records c ids). comparable x)
    \<longrightarrow> new_record h app (''FHE-'' @ b64) \<in> set (records (fst (registerVoter h app c)))
        \<and> (\<forall>x\<in>set (records (fst (registerVoter h app c))).
              id_field x = JStr (recordId_of h) \<longrightarrow> x = new_record h app (''FHE-'' @ b64)))"
proof -
  define n where "n = new_record h app (''FHE-'' @ b64)"
  define rk where "rk = ''record_'' @ recordId_of h"
  have valid: "valid_record n" and enc: "recordData_of h app (''FHE-'' @ b64) = encode_record n"
    unfolding n_def by (rule encode_new_record)+
  have nid: "id_field n = JStr (recordId_of h)"
    by (simp add: n_def new_record_def)
  have body: "fst (fetch_record (JStr i) c) = Some r"
    if "valid_record r" and "id_field r = JStr i"
      and "getData_error c (''record_'' @ i) = None"
      and "storage c (''record_'' @ i) = JSON_stringify (encode_record r)"
    by (rule fetch_encoded [OF that])
  have read: "r \<in> set (records (fst (loadRecords app c)))
        \<and> (\<forall>x\<in>set (records (fst (loadRecords app c))). id_field x = JStr i \<longrightarrow> x = r)"
    if "valid_record r" and "id_field r = JStr i"
      and "getData_error c (''record_'' @ i) = None"
      and "storage c (''record_'' @ i) = JSON_stringify (encode_record r)"
      and "reader c" and "available c"
      and "getData_error c ''record_keys'' = None"
      and "for_of (parse_keys (storage c ''record_keys'')) = Inr (map JStr ids)"
      and "i \<in> set ids"
      and "length (decoded_records c ids) \<le> 1 \<or> (\<forall>x\<in>set (decoded_records c ids). comparable x)"
    using read_back [OF that(1,2) that(5-9) that(3,4) that(10), of app] by simp
  have written: "storage (snd (registerVoter h app c)) rk = JSON_stringify (encode_record n)"
    if "provider app" and "btoa_JSON h (newRecordData app) = Inr b64" and "signer c"
      and "setData_error c rk = None"
    using register_record_written [OF that(1-3)] that(4) unfolding rk_def enc by simp
  have both: "n \<in> set (records (fst (registerVoter h app c)))
        \<and> (\<forall>x\<in>set (records (fst (registerVoter h app c))). id_field x = JStr (recordId_of h) \<longrightarrow> x = n)"
    if "provider app" and "btoa_JSON h (newRecordData app) = Inr b64" and "signer c"
      and "setData_error c rk = None"
      and "getData_error c ''record_keys'' = None"
      and "setData_error c ''record_keys'' = None"
      and "parse_keys (storage c ''record_keys'') = JArr (map JStr ids)"
      and "reader c" and "available c"
      and "getData_error c rk = None"
      and "\<forall>x\<in>set (decoded_records c ids). comparable x"
  proof -
    define ks where "ks = map JStr (ids @ [recordId_of h])"
    define v where "v = JSON_stringify (recordData_of h app (''FHE-'' @ b64))"
    define c3 where
      "c3 = c\<lparr>storage := (storage c)(rk := v, ''record_keys'' := JSON_stringify (JArr ks)),
               calls := calls c @ [SetData rk v, GetData ''record_keys'',
                                   SetData ''record_keys'' (JSON_stringify (JArr ks))]\<rparr>"
    have pushed: "push (parse_keys (storage c ''record_keys'')) (JStr (recordId_of h)) = Inr (JArr ks)"
      by (simp add: that(7) ks_def)
    note reg = register_done [OF that(1-3) that(4) that(5,6) pushed rk_def v_def c3_def]
    have st: "storage c3 = (storage c)(rk := JSON_stringify (encode_record n),
                                       ''record_keys'' := JSON_stringify (JArr ks))"
      unfolding c3_def v_def enc by simp
    have ge: "getData_error c3 = getData_error c"
      by (simp add: c3_def)
    have ne: "rk \<noteq> ''record_keys''"
      using record_key_not_index [of h] by (simp add: rk_def)
    have ready: "reader c3" "available c3" "getData_error c3 ''record_keys'' = None"
      using that(5,8,9) by (simp_all add: c3_def)
    have index: "for_of (parse_keys (storage c3 ''record_keys'')) = Inr (map JStr (ids @ [recordId_of h]))"
      by (simp add: st parse_keys_def JSON_stringify_def ks_def)
    have mem: "recordId_of h \<in> set (ids @ [recordId_of h])"
      by simp
    have g: "getData_error c3 (''record_'' @ recordId_of h) = None"
      using that(10) by (simp add: ge rk_def)
    have s: "storage c3 (''record_'' @ recordId_of h) = JSON_stringify (encode_record n)"
      using ne by (simp add: st rk_def)
    have cmp: "\<forall>x\<in>set (decoded_records c3 (ids @ [recordId_of h])). comparable x"
    proof
      fix x
      assume "x \<in> set (decoded_records c3 (ids @ [recordId_of h]))"
      then obtain j where j: "j \<in> set (ids @ [recordId_of h])"
        and x: "fst (fetch_record (JStr j) c3) = Some x"
        unfolding set_decoded_records by blast
      show "comparable x"
      proof (cases "j \<in> set ids")
        case True
        have "\<forall>y. fst (fetch_record (JStr j) c) = Some y \<longrightarrow> comparable y"
          using that(11) True unfolding set_decoded_records by blast
        from fetch_after_register [OF rk_def st ge valid nid x this] show ?thesis .
      next
        case False
        with j have "j = recordId_of h"
          by simp
        with x fetch_encoded [OF valid nid g s] have "x = n"
          by simp
        then show ?thesis
          using valid_comparable [OF valid] by simp
      qed
    qed
    from cmp have "length (decoded_records c3 (ids @ [recordId_of h])) \<le> 1
        \<or> (\<forall>x\<in>set (decoded_records c3 (ids @ [recordId_of h])). comparable x)"
      by blast
    from read_back [OF valid nid ready index mem g s this, of app] show ?thesis
      unfolding reg(2) by simp
  qed
  from body read written both valid nid show ?thesis
    unfolding n_def rk_def by blast
qed

text \<open>
  The record \<open>a\<close> of the example store is displayed by a refresh, and the record that the
  example registration creates is displayed after it, next to the record \<open>a\<close>.
\<close>

theorem stored_record_round_trip_witness:
  "valid_record recordA \<and> id_field recordA = JStr ''a'' \<and> reader chain0 \<and> available chain0
   \<and> getData_error chain0 ''record_keys'' = None
   \<and> for_of (parse_keys (storage chain0 ''record_keys'')) = Inr (map JStr [''a'', ''b''])
   \<and> ''a'' \<in> set [''a'', ''b'']
   \<and> getData_error chain0 (''record_'' @ ''a'') = None
   \<and> storage chain0 (''record_'' @ ''a'') = JSON_stringify (encode_record recordA)
   \<and> decoded_records chain0 [''a'', ''b''] = [recordA] \<and> comparable recordA
   \<and> fst (fetch_record (JStr ''a'') chain0) = Some recordA
   \<and> recordA \<in> set (records (fst (loadRecords app0 chain0)))
   \<and> provider app0 \<and> btoa_JSON host0 (newRecordData app0) = Inr ''eyJ4Ijoi'' \<and> signer chain0
   \<and> setData_error chain0 (''record_'' @ recordId_of host0) = None
   \<and> setData_error chain0 ''record_keys'' = None
   \<and> parse_keys (storage chain0 ''record_keys'') = JArr (map JStr [''a'', ''b''])
   \<and> getData_error chain0 (''record_'' @ recordId_of host0) = None
   \<and> new_record host0 app0 (''FHE-'' @ ''eyJ4Ijoi'') = recordNew
   \<and> storage (snd (registerVoter host0 app0 chain0)) ''record_1700123-k3j2h1g'' = Utf8Json recNew
   \<and> recordNew \<in> set (records (fst (registerVoter host0 app0 chain0)))"
proof -
  have v: "valid_record recordA" and i: "id_field recordA = JStr ''a''"
    by (simp_all add: valid_record_def recordA_def)
  have e: "encode_record recordA = recA"
    by (simp add: encode_record_def recordA_def recA_def)
  have m: "''a'' \<in> set [''a'', ''b'']"
    by simp
  have g: "getData_error chain0 (''record_'' @ ''a'') = None"
    and s: "storage chain0 (''record_'' @ ''a'') = JSON_stringify (encode_record recordA)"
    unfolding e by (simp_all add: chain0_def store0_def JSON_stringify_def)
  have d: "decoded_records chain0 [''a'', ''b''] = [recordA]"
    by (simp add: decoded_records_def chain0_fetch_a chain0_fetch_b)
  have ca: "comparable recordA"
    by (rule valid_comparable [OF v])
  have cmp: "\<forall>x\<in>set (decoded_records chain0 [''a'', ''b'']). comparable x"
    unfolding d using ca by simp
  have p: "provider app0" and b: "btoa_JSON host0 (newRecordData app0) = Inr ''eyJ4Ijoi''"
    by (simp_all add: app0_def host0_def)
  have c: "signer chain0" "setData_error chain0 (''record_'' @ recordId_of host0) = None"
    "setData_error chain0 ''record_keys'' = None"
    "getData_error chain0 (''record_'' @ recordId_of host0) = None"
    by (simp_all add: chain0_def)
  have k: "parse_keys (storage chain0 ''record_keys'') = JArr (map JStr [''a'', ''b''])"
    by (simp add: chain0_def store0_def parse_keys_def)
  have n: "new_record host0 app0 (''FHE-'' @ ''eyJ4Ijoi'') = recordNew"
    by (simp add: new_record_def recordNew_def host0_id) (simp add: host0_def app0_def)
  have n': "new_record host0 app0 ''FHE-eyJ4Ijoi'' = recordNew"
    using n by simp
  have en: "encode_record recordNew = recNew"
    by (simp add: encode_record_def recordNew_def recNew_def)
  note t = stored_record_round_trip [of recordA "''a''" chain0 "[''a'', ''b'']" app0 host0 "''eyJ4Ijoi''"]
  have r0: "fst (fetch_record (JStr ''a'') chain0) = Some recordA"
    using t [THEN conjunct1] v i g s by blast
  have r1: "recordA \<in> set (records (fst (loadRecords app0 chain0)))"
    using t [THEN conjunct1] v i chain0_ready chain0_keys m g s cmp by blast
  have r2: "storage (snd (registerVoter host0 app0 chain0)) ''record_1700123-k3j2h1g'' = Utf8Json recNew"
    using t [THEN conjunct2, THEN conjunct1] p b c(1,2)
    by (simp add: n' en host0_id JSON_stringify_def)
  have r3: "recordNew \<in> set (records (fst (registerVoter host0 app0 chain0)))"
    using t [THEN conjunct2, THEN conjunct2] p b c k chain0_ready(1,2) chain0_ready(3) cmp
    unfolding n by blast
  from v i chain0_ready chain0_keys m g s d ca r0 r1 p b c(1,2,3) k c(4) n r2 r3 show ?thesis
    by (intro conjI)
qed


section \<open>Registration and the index\<close>








text \<open>A registration whose \<^verbatim>\<open>keys.push\<close> throws.\<close>

lemma register_push_fails:
  assumes "provider app" and "btoa_JSON h (newRecordData app) = Inr b64" and "signer c"
    and "setData_error c rk = None"
    and "getData_error c ''record_keys'' = None"
    and "push (parse_keys (storage c ''record_keys'')) (JStr (recordId_of h)) = Inl e"
    and "rk = ''record_'' @ recordId_of h"
    and "v = JSON_stringify (recordData_of h app (''FHE-'' @ b64))"
  shows "storage (snd (registerVoter h app c)) = (storage c)(rk := v)"
    and "tx_status (transactionStatus (fst (registerVoter h app c))) = TxError"
    and "tx_message (transactionStatus (fst (registerVoter h app c))) = errorMessage e"
    and "calls (snd (registerVoter h app c)) = calls c @ [SetData rk v, GetData ''record_keys'']"
proof -
  define app1 where
    "app1 = setTransactionStatus TxPending ''Encrypting voter data with FHE...''
              (app\<lparr>registering := True\<rparr>)"
  have rv: "registerVoter h app c =
      (case register_try h app1 c of
         (Inl e, d) \<Rightarrow> ((register_catch e app1)\<lparr>registering := False\<rparr>, d)
       | (Inr a, d) \<Rightarrow> (a\<lparr>registering := False\<rparr>, d))"
    using assms(1) unfolding registerVoter_def app1_def Let_def by simp
  have form: "newRecordData app1 = newRecordData app"
    by (simp add: app1_def setTransactionStatus_def)
  have data: "recordData_of h app1 x = recordData_of h app x" for x
    by (simp add: app1_def recordData_of_cong)
  have ne: "rk \<noteq> ''record_keys''"
    using record_key_not_index [of h] assms(7) by simp
  define c1 where "c1 = c\<lparr>storage := (storage c)(rk := v), calls := calls c @ [SetData rk v]\<rparr>"
  define c2 where "c2 = c1\<lparr>calls := calls c1 @ [GetData ''record_keys'']\<rparr>"
  have s1: "setData rk v c = (Inr (), c1)"
    using assms(4) by (simp add: setData_def c1_def)
  have g: "getData ''record_keys'' c1 = (Inr (storage c ''record_keys''), c2)"
    using assms(5) ne by (simp add: getData_def c1_def c2_def)
  have rt: "register_try h app1 c = (Inl e, c2)"
    using s1 g assms(2,3,6) unfolding assms(7,8)
    by (simp add: register_try_def form Let_def data)
  show "storage (snd (registerVoter h app c)) = (storage c)(rk := v)"
    by (simp add: rv rt) (simp add: c2_def c1_def)
  show "tx_status (transactionStatus (fst (registerVoter h app c))) = TxError"
    by (simp add: rv rt register_catch_def setTransactionStatus_def)
  show "tx_message (transactionStatus (fst (registerVoter h app c))) = errorMessage e"
    by (simp add: rv rt register_catch_def setTransactionStatus_def)
  show "calls (snd (registerVoter h app c)) = calls c @ [SetData rk v, GetData ''record_keys'']"
    by (simp add: rv rt) (simp add: c2_def c1_def)
qed

text \<open>The refresh of an index that holds one id.\<close>

lemma records_of_single_index:
  assumes "reader c" and "available c" and "getData_error c ''record_keys'' = None"
    and "for_of (parse_keys (storage c ''record_keys'')) = Inr (map JStr [i])"
  shows "records (fst (loadRecords a c)) = decoded_records c [i]"
    and "\<forall>r\<in>set (records (fst (loadRecords a c))). id_field r = JStr i"
proof -
  have "length (decoded_records c [i]) \<le> 1"
    by (simp add: decoded_records_def split: option.splits)
  then have "sort_js by_timestamp (decoded_records c [i]) = Inr (decoded_records c [i])"
    by (rule sort_js_short)
  then show recs: "records (fst (loadRecords a c)) = decoded_records c [i]"
    by (simp add: loadRecords_done [OF assms])
  show "\<forall>r\<in>set (records (fst (loadRecords a c))). id_field r = JStr i"
    unfolding recs set_decoded_records using fetch_record_id by fastforce
qed


section \<open>Facts about the example registrations\<close>

lemma host0_register:
  "provider app0" "btoa_JSON host0 (newRecordData app0) = Inr ''eyJ4Ijoi''"
  "''record_1700123-k3j2h1g'' = ''record_'' @ recordId_of host0"
  "Utf8Json recNew = JSON_stringify (recordData_of host0 app0 (''FHE-'' @ ''eyJ4Ijoi''))"
proof -
  show "provider app0"
    by (simp add: app0_def)
  show "btoa_JSON host0 (newRecordData app0) = Inr ''eyJ4Ijoi''"
    by (simp add: host0_def)
  show "''record_1700123-k3j2h1g'' = ''record_'' @ recordId_of host0"
    by (simp add: host0_id)
  show "Utf8Json recNew = JSON_stringify (recordData_of host0 app0 (''FHE-'' @ ''eyJ4Ijoi''))"
    by (simp only: host0_data JSON_stringify_def)
qed




section \<open>Registration on an index that does not hold a list\<close>

text \<open>
  C6, as stated, on an index key that holds the JSON text \<^verbatim>\<open>5\<close>: the bytes are not empty
  and do not decode to a list of ids. The registration writes the record, reads the
  index, and \<^verbatim>\<open>keys.push\<close> throws: no index is written back, the stored index is the text
  \<^verbatim>\<open>5\<close> as before, and the registration reports an error after having stored the record.
\<close>

theorem register_on_index_not_a_list_counterexample:
  "storage chain5 ''record_keys'' = Utf8Json (JNum 5)
   \<and> storage chain5 ''record_keys'' \<noteq> Empty
   \<and> parse_keys (storage chain5 ''record_keys'') = JNum 5
   \<and> provider app0 \<and> signer chain5
   \<and> storage (snd (registerVoter host0 app0 chain5)) ''record_keys'' = Utf8Json (JNum 5)
   \<and> storage (snd (registerVoter host0 app0 chain5)) ''record_keys''
       \<noteq> Utf8Json (JArr [JStr ''1700123-k3j2h1g''])
   \<and> storage (snd (registerVoter host0 app0 chain5)) ''record_1700123-k3j2h1g'' = Utf8Json recNew
   \<and> calls (snd (registerVoter host0 app0 chain5)) =
       [SetData ''record_1700123-k3j2h1g'' (Utf8Json recNew), GetData ''record_keys'']
   \<and> tx_status (transactionStatus (fst (registerVoter host0 app0 chain5))) = TxError
   \<and> tx_message (transactionStatus (fst (registerVoter host0 app0 chain5))) =
       ''Registration failed: keys.push is not a function''"
proof -
  have idx: "storage chain5 ''record_keys'' = Utf8Json (JNum 5)"
    by (simp add: chain5_def chain0_def)
  have keys: "parse_keys (storage chain5 ''record_keys'') = JNum 5"
    by (simp add: idx parse_keys_def)
  have pre: "signer chain5" "setData_error chain5 ''record_1700123-k3j2h1g'' = None"
    "getData_error chain5 ''record_keys'' = None" "calls chain5 = []"
    by (simp_all add: chain5_def chain0_def)
  have thrown: "push (parse_keys (storage chain5 ''record_keys'')) (JStr (recordId_of host0))
                  = Inl (Error ''keys.push is not a function'')"
    by (simp add: keys)
  note f = register_push_fails [OF host0_register(1,2) pre(1-3) thrown host0_register(3,4)]
  have i: "storage (snd (registerVoter host0 app0 chain5)) ''record_keys'' = Utf8Json (JNum 5)"
    unfolding f(1) by (simp add: idx)
  have r: "storage (snd (registerVoter host0 app0 chain5)) ''record_1700123-k3j2h1g'' = Utf8Json recNew"
    unfolding f(1) by simp
  have cs: "calls (snd (registerVoter host0 app0 chain5)) =
       [SetData ''record_1700123-k3j2h1g'' (Utf8Json recNew), GetData ''record_keys'']"
    unfolding f(4) by (simp add: pre(4))
  have m: "tx_message (transactionStatus (fst (registerVoter host0 app0 chain5))) =
       ''Registration failed: keys.push is not a function''"
    unfolding f(3) by (simp add: errorMessage_def)
  have ne: "storage chain5 ''record_keys'' \<noteq> Empty"
    "storage (snd (registerVoter host0 app0 chain5)) ''record_keys''
       \<noteq> Utf8Json (JArr [JStr ''1700123-k3j2h1g''])"
    unfolding i by (simp_all add: idx)
  from idx ne(1) keys host0_register(1) pre(1) i ne(2) r cs f(2) m show ?thesis
    by (intro conjI)
qed

text \<open>
  C6, amended. Take a registration whose record write and index read go through. When the
  stored index bytes are not empty and \<^verbatim>\<open>JSON.parse\<close> rejects them, and the write of the
  index goes through as well, the registration reports success and writes back an index
  that holds the new id alone. Every other key of the store is left as it was, so the
  earlier records are still stored, but a refresh (the one that ends the registration, or
  any later one that reads this index) lists records of the new id only: the new record,
  if its \<^verbatim>\<open>getData\<close> goes through. When the index bytes parse to a value that is not an
  array, \<^verbatim>\<open>keys.push\<close> throws instead: the registration reports an error, the record is
  stored and the index is left as it was.
\<close>

theorem register_on_unparsable_index:
  assumes "provider app" and "btoa_JSON h (newRecordData app) = Inr b64" and "signer c"
    and "setData_error c (''record_'' @ recordId_of h) = None"
    and "getData_error c ''record_keys'' = None"
  shows "(storage c ''record_keys'' = Malformed m \<and> setData_error c ''record_keys'' = None
          \<longrightarrow> storage (snd (registerVoter h app c)) =
                (storage c)(''record_'' @ recordId_of h :=
                              JSON_stringify (recordData_of h app (''FHE-'' @ b64)),
                            ''record_keys'' := Utf8Json (JArr [JStr (recordId_of h)]))
              \<and> tx_status (transactionStatus (fst (registerVoter h app c))) = TxSuccess
              \<and> index_ids (storage (snd (registerVoter h app c))) = [JStr (recordId_of h)]
              \<and> (\<forall>k. k \<noteq> ''record_keys'' \<and> k \<noteq> ''record_'' @ recordId_of h
                     \<longrightarrow> storage (snd (registerVoter h app c)) k = storage c k)
              \<and> (reader c \<and> available c
                   \<longrightarrow> (\<forall>r\<in>set (records (fst (registerVoter h app c))).
                          id_field r = JStr (recordId_of h))
                       \<and> (\<forall>a. \<forall>r\<in>set (records (fst (loadRecords a (snd (registerVoter h app c))))).
                              id_field r = JStr (recordId_of h)))
              \<and> (reader c \<and> available c \<and> getData_error c (''record_'' @ recordId_of h) = None
                   \<longrightarrow> records (fst (registerVoter h app c)) = [new_record h app (''FHE-'' @ b64)]))
       \<and> (\<forall>v. storage c ''record_keys'' = Utf8Json v \<and> (\<forall>xs. v \<noteq> JArr xs)
              \<longrightarrow> storage (snd (registerVoter h app c)) =
                    (storage c)(''record_'' @ recordId_of h :=
                                  JSON_stringify (recordData_of h app (''FHE-'' @ b64)))
                  \<and> tx_status (transactionStatus (fst (registerVoter h app c))) = TxError)"
proof -
  define rk where "rk = ''record_'' @ recordId_of h"
  define v where "v = JSON_stringify (recordData_of h app (''FHE-'' @ b64))"
  define keys where "keys = JArr [JStr (recordId_of h)]"
  define n where "n = new_record h app (''FHE-'' @ b64)"
  define c3 where
    "c3 = c\<lparr>storage := (storage c)(rk := v, ''record_keys'' := JSON_stringify keys),
            calls := calls c @ [SetData rk v, GetData ''record_keys'',
                                SetData ''record_keys'' (JSON_stringify keys)]\<rparr>"
  define c' where "c' = snd (registerVoter h app c)"
  define s where "s = tx_status (transactionStatus (fst (registerVoter h app c)))"
  have w: "setData_error c rk = None"
    using assms(4) by (simp add: rk_def)
  have ne: "rk \<noteq> ''record_keys''"
    unfolding rk_def by (rule record_key_not_index)
  have reset: "storage c' = (storage c)(rk := v, ''record_keys'' := Utf8Json keys)
       \<and> s = TxSuccess
       \<and> index_ids (storage c') = [JStr (recordId_of h)]
       \<and> (\<forall>k. k \<noteq> ''record_keys'' \<and> k \<noteq> rk \<longrightarrow> storage c' k = storage c k)
       \<and> (reader c \<and> available c
            \<longrightarrow> (\<forall>r\<in>set (records (fst (registerVoter h app c))). id_field r = JStr (recordId_of h))
                \<and> (\<forall>a. \<forall>r\<in>set (records (fst (loadRecords a c'))). id_field r = JStr (recordId_of h)))
       \<and> (reader c \<and> available c \<and> getData_error c rk = None
            \<longrightarrow> records (fst (registerVoter h app c)) = [n])"
    if bad: "storage c ''record_keys'' = Malformed m" and ok: "setData_error c ''record_keys'' = None"
  proof -
    have pushed: "push (parse_keys (storage c ''record_keys'')) (JStr (recordId_of h)) = Inr keys"
      by (simp add: bad parse_keys_def keys_def)
    note reg = register_done [OF assms(1-3) w assms(5) ok pushed rk_def v_def c3_def,
        folded c'_def s_def]
    obtain cs where cs: "snd (loadRecords app c3) = c3\<lparr>calls := calls c3 @ cs\<rparr>"
      using loadRecords_chain [of app c3] by blast
    have c': "c' = c3\<lparr>calls := calls c3 @ cs\<rparr>"
      using reg(1) cs by simp
    have st: "storage c' = (storage c)(rk := v, ''record_keys'' := Utf8Json keys)"
      by (simp add: c') (simp add: c3_def JSON_stringify_def)
    have ids: "index_ids (storage c') = [JStr (recordId_of h)]"
      by (simp add: st index_ids_def parse_keys_def keys_def)
    have other: "storage c' k = storage c k" if "k \<noteq> ''record_keys''" and "k \<noteq> rk" for k
      using that by (simp add: st)
    have ready: "reader d" "available d" "getData_error d ''record_keys'' = None"
      "for_of (parse_keys (storage d ''record_keys'')) = Inr (map JStr [recordId_of h])"
      if "reader c" and "available c" and "d = c3\<lparr>calls := xs\<rparr>" for d xs
      using that assms(5)
      by (simp_all add: c3_def JSON_stringify_def parse_keys_def keys_def)
    have listed: "\<forall>r\<in>set (records (fst (loadRecords a d))). id_field r = JStr (recordId_of h)"
      if "reader c" and "available c" and "d = c3\<lparr>calls := xs\<rparr>" for a d xs
      by (rule records_of_single_index(2) [OF ready [OF that]])
    have first: "\<forall>r\<in>set (records (fst (registerVoter h app c))). id_field r = JStr (recordId_of h)"
      if "reader c" and "available c"
      unfolding reg(2) by (rule listed [OF that, of c3 "calls c3"]) simp
    have later: "\<forall>r\<in>set (records (fst (loadRecords a c'))). id_field r = JStr (recordId_of h)"
      if "reader c" and "available c" for a
      by (rule listed [OF that c'])
    have shown: "records (fst (registerVoter h app c)) = [n]"
      if "reader c" and "available c" and "getData_error c rk = None"
    proof -
      have same: "c3 = c3\<lparr>calls := calls c3\<rparr>"
        by simp
      have valid: "valid_record n" and enc: "recordData_of h app (''FHE-'' @ b64) = encode_record n"
        unfolding n_def by (rule encode_new_record)+
      have nid: "id_field n = JStr (recordId_of h)"
        by (simp add: n_def new_record_def)
      have g: "getData_error c3 (''record_'' @ recordId_of h) = None"
        using that(3) by (simp add: c3_def rk_def)
      have "storage c3 rk = JSON_stringify (encode_record n)"
        unfolding c3_def v_def enc using ne by simp
      then have s3: "storage c3 (''record_'' @ recordId_of h) = JSON_stringify (encode_record n)"
        by (simp add: rk_def)
      have "decoded_records c3 [recordId_of h] = [n]"
        by (simp add: decoded_records_def fetch_encoded [OF valid nid g s3])
      then show ?thesis
        unfolding reg(2) records_of_single_index(1) [OF ready [OF that(1,2) same]] .
    qed
    from st reg(3) ids other first later shown show ?thesis
      by blast
  qed
  have thrown: "storage c' = (storage c)(rk := v) \<and> s = TxError"
    if idx: "storage c ''record_keys'' = Utf8Json x" and nolist: "\<forall>xs. x \<noteq> JArr xs" for x
  proof -
    have "parse_keys (storage c ''record_keys'') = x"
      by (simp add: idx parse_keys_def)
    then obtain e where "push (parse_keys (storage c ''record_keys'')) (JStr (recordId_of h)) = Inl e"
      using nolist by (cases x) auto
    from register_push_fails(1,2) [OF assms(1-3) w assms(5) this rk_def v_def]
    show ?thesis
      by (simp add: c'_def s_def)
  qed
  from reset thrown
  have "(storage c ''record_keys'' = Malformed m \<and> setData_error c ''record_keys'' = None
          \<longrightarrow> storage c' = (storage c)(rk := v, ''record_keys'' := Utf8Json keys)
              \<and> s = TxSuccess
              \<and> index_ids (storage c') = [JStr (recordId_of h)]
              \<and> (\<forall>k. k \<noteq> ''record_keys'' \<and> k \<noteq> rk \<longrightarrow> storage c' k = storage c k)
              \<and> (reader c \<and> available c
                   \<longrightarrow> (\<forall>r\<in>set (records (fst (registerVoter h app c))).
                          id_field r = JStr (recordId_of h))
                       \<and> (\<forall>a. \<forall>r\<in>set (records (fst (loadRecords a c'))).
                              id_field r = JStr (recordId_of h)))
              \<and> (reader c \<and> available c \<and> getData_error c rk = None
                   \<longrightarrow> records (fst (registerVoter h app c)) = [n]))
       \<and> (\<forall>x. storage c ''record_keys'' = Utf8Json x \<and> (\<forall>xs. x \<noteq> JArr xs)
              \<longrightarrow> storage c' = (storage c)(rk := v) \<and> s = TxError)"
    by blast
  then show ?thesis
    unfolding rk_def v_def keys_def c'_def s_def n_def .
qed

text \<open>
  The example registration on a store whose index bytes do not parse: the record \<open>a\<close> is
  still stored, the index holds the new id alone and the refresh shows the new record
  alone.
\<close>

theorem register_on_unparsable_index_witness:
  "provider app0 \<and> btoa_JSON host0 (newRecordData app0) = Inr ''eyJ4Ijoi'' \<and> signer chain_corrupt
   \<and> setData_error chain_corrupt (''record_'' @ recordId_of host0) = None
   \<and> getData_error chain_corrupt ''record_keys'' = None
   \<and> setData_error chain_corrupt ''record_keys'' = None
   \<and> storage chain_corrupt ''record_keys'' = Malformed ''Unexpected token''
   \<and> reader chain_corrupt \<and> available chain_corrupt
   \<and> getData_error chain_corrupt (''record_'' @ recordId_of host0) = None
   \<and> storage chain_corrupt ''record_a'' = Utf8Json recA
   \<and> index_ids (storage (snd (registerVoter host0 app0 chain_corrupt))) = [JStr ''1700123-k3j2h1g'']
   \<and> storage (snd (registerVoter host0 app0 chain_corrupt)) ''record_keys'' =
       Utf8Json (JArr [JStr ''1700123-k3j2h1g''])
   \<and> storage (snd (registerVoter host0 app0 chain_corrupt)) ''record_a'' = Utf8Json recA
   \<and> records (fst (registerVoter host0 app0 chain_corrupt)) = [recordNew]"
proof -
  have pre: "signer chain_corrupt"
    "setData_error chain_corrupt (''record_'' @ recordId_of host0) = None"
    "getData_error chain_corrupt ''record_keys'' = None"
    by (simp_all add: chain_corrupt_def chain0_def)
  have bad: "storage chain_corrupt ''record_keys'' = Malformed ''Unexpected token''"
    "setData_error chain_corrupt ''record_keys'' = None"
    by (simp_all add: chain_corrupt_def chain0_def)
  have up: "reader chain_corrupt" "available chain_corrupt"
    "getData_error chain_corrupt (''record_'' @ recordId_of host0) = None"
    by (simp_all add: chain_corrupt_def chain0_def)
  have a: "storage chain_corrupt ''record_a'' = Utf8Json recA"
    by (simp add: chain_corrupt_def chain0_def store0_def)
  have n: "new_record host0 app0 (''FHE-'' @ ''eyJ4Ijoi'') = recordNew"
    by (simp add: new_record_def recordNew_def host0_id) (simp add: host0_def app0_def)
  note t = register_on_unparsable_index [OF host0_register(1,2) pre,
      of "''Unexpected token''", THEN conjunct1, rule_format, OF conjI [OF bad]]
  have st: "storage (snd (registerVoter host0 app0 chain_corrupt)) =
              (storage chain_corrupt)(''record_'' @ recordId_of host0 :=
                  JSON_stringify (recordData_of host0 app0 (''FHE-'' @ ''eyJ4Ijoi'')),
                ''record_keys'' := Utf8Json (JArr [JStr (recordId_of host0)]))"
    using t by blast
  have ids: "index_ids (storage (snd (registerVoter host0 app0 chain_corrupt))) = [JStr ''1700123-k3j2h1g'']"
    using t [THEN conjunct2, THEN conjunct2, THEN conjunct1] by (simp add: host0_id)
  have idx: "storage (snd (registerVoter host0 app0 chain_corrupt)) ''record_keys'' =
       Utf8Json (JArr [JStr ''1700123-k3j2h1g''])"
    unfolding st by (simp add: host0_id)
  have kept: "storage (snd (registerVoter host0 app0 chain_corrupt)) ''record_a'' = Utf8Json recA"
    unfolding st by (simp add: host0_id a)
  have "records (fst (registerVoter host0 app0 chain_corrupt))
          = [new_record host0 app0 (''FHE-'' @ ''eyJ4Ijoi'')]"
    using t [THEN conjunct2, THEN conjunct2, THEN conjunct2, THEN conjunct2, THEN conjunct2] up
    by blast
  then have shown: "records (fst (registerVoter host0 app0 chain_corrupt)) = [recordNew]"
    unfolding n .
  from host0_register(1,2) pre bad(2,1) up a ids idx kept shown show ?thesis
    by (intro conjI)
qed


end
